theory Spec2Isabelle
  imports Main "HOL-Library.Word" "HOL-Library.AList"
begin

unbundle bit_operations_syntax

section \<open>The recording store of \<^verbatim>\<open>src/storage.cpp\<close>\<close>

text \<open>
  The class \<^verbatim>\<open>Storage\<close> is a state machine over the SD card: it creates, writes, opens,
  reads, closes, lists and removes recordings under \<^verbatim>\<open>/recordings\<close>. The card and its
  files are reached through the Arduino objects \<^verbatim>\<open>SD\<close> and \<^verbatim>\<open>File\<close>, which belong to
  the platform and not to this repository; they are modelled first, then the class,
  method by method.
\<close>

subsection \<open>Values\<close>

type_synonym byte = "8 word"

text \<open>
  A \<^verbatim>\<open>float\<close> is kept as its 32-bit IEEE-754 pattern: the store never computes with the
  values, it only copies their bytes, so "the exact value" is "the same 32 bits".
\<close>

type_synonym float32 = "32 word"

datatype StorageState = Idle | Error | Recording | Reading

text \<open>\<^verbatim>\<open>StorageError::None\<close> is written \<open>NoError\<close>, since \<open>None\<close> is the empty option.\<close>

datatype StorageError =
  NoError | CanNotInitialize | CanNotOpenFile | CanNotRemoveFile | FileSystemError | TooManyFiles

subsection \<open>The card: \<^verbatim>\<open>SD\<close> and \<^verbatim>\<open>File\<close>\<close>

text \<open>
  Modelled from the spec: the filesystem driver behind \<^verbatim>\<open>SD\<close> and \<^verbatim>\<open>File\<close>, whose code is
  the platform's and not among the sources. The spec lists its calls as the collaborator
  contract (mount, exists, mkdir, remove, open, next child, peek, read byte, read bytes,
  write bytes, close); the return values are those \<^verbatim>\<open>storage.cpp\<close> tests.

  The card holds named nodes in directory order. Every call of the driver advances
  \<open>clock\<close>; the call made at time \<open>n\<close> fails when \<open>n \<in> faults\<close> and the call is of a
  kind that can fail (\<^verbatim>\<open>begin\<close>, \<^verbatim>\<open>mkdir\<close>, \<^verbatim>\<open>remove\<close>, \<^verbatim>\<open>open\<close>, \<^verbatim>\<open>openNextFile\<close>,
  \<^verbatim>\<open>peek\<close>, \<^verbatim>\<open>read\<close>, \<^verbatim>\<open>write\<close>). A failed call transfers nothing. \<^verbatim>\<open>exists\<close> and
  \<^verbatim>\<open>close\<close> only advance the clock. So \<open>faults\<close> is an arbitrary schedule of medium
  faults, and a card that is left untouched keeps its clock.
\<close>

datatype node = Dir | RegFile "byte list"

record medium =
  nodes :: "(string \<times> node) list"
  clock :: nat
  faults :: "nat set"

datatype fmode = FILE_READ | FILE_WRITE

text \<open>
  An open \<^verbatim>\<open>File\<close>; the invalid \<^verbatim>\<open>File\<close> (the one that converts to \<^verbatim>\<open>false\<close>) is \<open>None\<close>.
  \<open>f_pos\<close> is the read position; writes go to the end of the file.
\<close>

record File =
  f_path :: string
  f_mode :: fmode
  f_pos :: nat

definition tick :: "medium \<Rightarrow> medium" where
  "tick m = m\<lparr>clock := Suc (clock m)\<rparr>"

definition faulted :: "medium \<Rightarrow> bool" where
  "faulted m \<longleftrightarrow> clock m \<in> faults m"

definition file_content :: "medium \<Rightarrow> string \<Rightarrow> byte list" where
  "file_content m p = (case map_of (nodes m) p of Some (RegFile bs) \<Rightarrow> bs | _ \<Rightarrow> [])"

definition SD_begin :: "medium \<Rightarrow> bool \<times> medium" where
  "SD_begin m = (\<not> faulted m, tick m)"

definition SD_exists :: "medium \<Rightarrow> string \<Rightarrow> bool \<times> medium" where
  "SD_exists m p = (map_of (nodes m) p \<noteq> None, tick m)"

definition SD_mkdir :: "medium \<Rightarrow> string \<Rightarrow> bool \<times> medium" where
  "SD_mkdir m p =
     (if faulted m \<or> map_of (nodes m) p \<noteq> None then (False, tick m)
      else (True, tick (m\<lparr>nodes := nodes m @ [(p, Dir)]\<rparr>)))"

text \<open>\<^verbatim>\<open>remove\<close> deletes regular files only.\<close>

definition SD_remove :: "medium \<Rightarrow> string \<Rightarrow> bool \<times> medium" where
  "SD_remove m p =
     (case map_of (nodes m) p of
        Some (RegFile bs) \<Rightarrow>
          if faulted m then (False, tick m)
          else (True, tick (m\<lparr>nodes := AList.delete p (nodes m)\<rparr>))
      | _ \<Rightarrow> (False, tick m))"

text \<open>
  \<^verbatim>\<open>open(path)\<close> reads an existing node; \<^verbatim>\<open>open(path, FILE_WRITE)\<close> creates the file, or
  empties it when it is already there (mode \<^verbatim>\<open>"w"\<close> of the ESP32 core), and refuses a
  directory.
\<close>

definition SD_open :: "medium \<Rightarrow> string \<Rightarrow> fmode \<Rightarrow> File option \<times> medium" where
  "SD_open m p mode =
     (if faulted m then (None, tick m)
      else case mode of
        FILE_READ \<Rightarrow>
          (if map_of (nodes m) p = None then (None, tick m)
           else (Some \<lparr>f_path = p, f_mode = FILE_READ, f_pos = 0\<rparr>, tick m))
      | FILE_WRITE \<Rightarrow>
          (if map_of (nodes m) p = Some Dir then (None, tick m)
           else (Some \<lparr>f_path = p, f_mode = FILE_WRITE, f_pos = 0\<rparr>,
                 tick (m\<lparr>nodes := AList.update p (RegFile []) (nodes m)\<rparr>))))"

text \<open>
  \<^verbatim>\<open>File::write\<close> returns the number of bytes written: all of them, or 0. An invalid
  \<^verbatim>\<open>File\<close> writes nothing and does not reach the card.
\<close>

definition File_write :: "medium \<Rightarrow> File option \<Rightarrow> byte list \<Rightarrow> nat \<times> medium" where
  "File_write m fo bs =
     (case fo of
        None \<Rightarrow> (0, m)
      | Some f \<Rightarrow>
          (case map_of (nodes m) (f_path f) of
             Some (RegFile old) \<Rightarrow>
               if faulted m \<or> f_mode f \<noteq> FILE_WRITE then (0, tick m)
               else (length bs,
                     tick (m\<lparr>nodes := AList.update (f_path f) (RegFile (old @ bs)) (nodes m)\<rparr>))
           | _ \<Rightarrow> (0, tick m)))"

text \<open>\<^verbatim>\<open>File::peek\<close>: the next byte, or -1 when there is none; the position stays.\<close>

definition File_peek :: "medium \<Rightarrow> File option \<Rightarrow> int \<times> medium" where
  "File_peek m fo =
     (case fo of
        None \<Rightarrow> (-1, m)
      | Some f \<Rightarrow>
          (if faulted m \<or> length (file_content m (f_path f)) \<le> f_pos f then (-1, tick m)
           else (uint (file_content m (f_path f) ! f_pos f), tick m)))"

text \<open>\<^verbatim>\<open>File::read()\<close>: the next byte, consumed, or -1.\<close>

definition File_read_byte :: "medium \<Rightarrow> File option \<Rightarrow> int \<times> File option \<times> medium" where
  "File_read_byte m fo =
     (case fo of
        None \<Rightarrow> (-1, None, m)
      | Some f \<Rightarrow>
          (if faulted m \<or> length (file_content m (f_path f)) \<le> f_pos f then (-1, Some f, tick m)
           else (uint (file_content m (f_path f) ! f_pos f),
                 Some (f\<lparr>f_pos := Suc (f_pos f)\<rparr>), tick m)))"

text \<open>
  \<^verbatim>\<open>File::read(buf, n)\<close>: the bytes read, at most \<open>n\<close> and fewer at the end of the file;
  the C++ call returns their number and stores them at the start of \<^verbatim>\<open>buf\<close>.
\<close>

definition File_read :: "medium \<Rightarrow> File option \<Rightarrow> nat \<Rightarrow> byte list \<times> File option \<times> medium" where
  "File_read m fo n =
     (case fo of
        None \<Rightarrow> ([], None, m)
      | Some f \<Rightarrow>
          (if faulted m then ([], Some f, tick m)
           else (let got = take n (drop (f_pos f) (file_content m (f_path f)))
                 in (got, Some (f\<lparr>f_pos := f_pos f + length got\<rparr>), tick m))))"

definition File_close :: "medium \<Rightarrow> File option \<Rightarrow> medium" where
  "File_close m fo = (case fo of None \<Rightarrow> m | Some f \<Rightarrow> tick m)"

text \<open>
  The direct children of a directory, in directory order; \<^verbatim>\<open>entry.name()\<close> is the full
  path, as the prefix test of \<^verbatim>\<open>list_recordings\<close> expects.
\<close>

definition is_child :: "string \<Rightarrow> string \<Rightarrow> bool" where
  "is_child d p \<longleftrightarrow>
     take (Suc (length d)) p = d @ ''/'' \<and> Suc (length d) < length p \<and>
     CHR ''/'' \<notin> set (drop (Suc (length d)) p)"

definition children :: "medium \<Rightarrow> string \<Rightarrow> (string \<times> node) list" where
  "children m d = filter (\<lambda>e. is_child d (fst e)) (nodes m)"

subsection \<open>Memory layout of the sample buffer\<close>

text \<open>
  \<^verbatim>\<open>(const uint8_t*) data\<close> views the floats as bytes, four each, least significant first
  (the ESP32 is little-endian).
\<close>

definition float_bytes :: "float32 \<Rightarrow> byte list" where
  "float_bytes w = [ucast w, ucast (drop_bit 8 w), ucast (drop_bit 16 w), ucast (drop_bit 24 w)]"

definition bytes_float :: "byte \<Rightarrow> byte \<Rightarrow> byte \<Rightarrow> byte \<Rightarrow> float32" where
  "bytes_float a b c d =
     ucast a OR push_bit 8 (ucast b) OR push_bit 16 (ucast c) OR push_bit 24 (ucast d)"

definition floats_bytes :: "float32 list \<Rightarrow> byte list" where
  "floats_bytes ws = concat (map float_bytes ws)"

fun bytes_floats :: "byte list \<Rightarrow> float32 list" where
  "bytes_floats (a # b # c # d # bs) = bytes_float a b c d # bytes_floats bs"
| "bytes_floats bs = []"

text \<open>
  Storing \<open>got\<close> at the start of the caller's array: the bytes behind them keep their
  old content.
\<close>

definition store_bytes :: "byte list \<Rightarrow> float32 list \<Rightarrow> float32 list" where
  "store_bytes got data = bytes_floats (got @ drop (length got) (floats_bytes data))"

subsection \<open>The class \<^verbatim>\<open>Storage\<close>\<close>

text \<open>
  Modelled from the spec: the member declarations of \<^verbatim>\<open>storage.h\<close>, which is not among
  the sources. The spec's data model lists \<open>state\<close>, \<open>error\<close>, \<open>currentFile\<close>,
  \<open>currentRecordingName\<close> and the counter \<open>nextIndex\<close> (0..9999, only ever incremented);
  they are the members \<^verbatim>\<open>_state\<close>, \<^verbatim>\<open>_error\<close>, \<^verbatim>\<open>_current_file\<close>,
  \<^verbatim>\<open>_current_recording_name\<close> and \<^verbatim>\<open>_last_file_index\<close> that \<^verbatim>\<open>storage.cpp\<close> uses. The
  card behind the global \<^verbatim>\<open>SD\<close> is the field \<open>sd\<close>, so that a method is a function from
  the store to its return value and the store afterwards.
\<close>

record Storage =
  state :: StorageState
  error :: StorageError
  current_file :: "File option"
  current_recording_name :: string
  last_file_index :: nat
  sd :: medium

record StorageEntry =
  entry_name :: string
  entry_size :: nat

definition set_error :: "Storage \<Rightarrow> StorageError \<Rightarrow> Storage" where
  "set_error s e = s\<lparr>state := Error, error := e\<rparr>"

definition get_error :: "Storage \<Rightarrow> StorageError" where
  "get_error s = error s"

definition is_recording_open :: "Storage \<Rightarrow> bool" where
  "is_recording_open s \<longleftrightarrow> state s = Recording \<or> state s = Reading"

definition init :: "Storage \<Rightarrow> bool \<times> Storage" where
  "init s =
     (case SD_begin (sd s) of (ok, m1) \<Rightarrow>
        if \<not> ok then (False, set_error (s\<lparr>sd := m1\<rparr>) CanNotInitialize)
        else case SD_exists m1 ''/recordings'' of (ex, m2) \<Rightarrow>
          if \<not> ex then
            (case SD_mkdir m2 ''/recordings'' of (made, m3) \<Rightarrow>
               if \<not> made then (False, set_error (s\<lparr>sd := m3\<rparr>) FileSystemError)
               else (True, s\<lparr>sd := m3, state := Idle\<rparr>))
          else (True, s\<lparr>sd := m2, state := Idle\<rparr>))"

definition clear_error :: "Storage \<Rightarrow> bool \<times> Storage" where
  "clear_error s =
     (case init s of (ok, s1) \<Rightarrow>
        if \<not> ok then (False, s1)
        else (True, s1\<lparr>state := Idle, error := NoError\<rparr>))"

text \<open>\<^verbatim>\<open>strcasecmp\<close> compares after \<^verbatim>\<open>tolower\<close>; only equality is asked for.\<close>

definition c_tolower :: "char \<Rightarrow> char" where
  "c_tolower c =
     (if (65::nat) \<le> of_char c \<and> of_char c \<le> (90::nat) then char_of (of_char c + (32::nat)) else c)"

definition strcasecmp_eq :: "string \<Rightarrow> string \<Rightarrow> bool" where
  "strcasecmp_eq a b \<longleftrightarrow> map c_tolower a = map c_tolower b"

text \<open>The body of the \<^verbatim>\<open>while (entry)\<close> loop: the entries this child adds to the result.\<close>

definition entry_recording :: "string \<Rightarrow> node \<Rightarrow> StorageEntry list" where
  "entry_recording p n =
     (case n of
        Dir \<Rightarrow> []
      | RegFile bs \<Rightarrow>
          if take 12 p = ''/recordings/'' then
            (let nm = drop 12 p; len = length nm
             in if 4 \<le> len \<and> strcasecmp_eq (drop (len - 4) nm) ''.rec''
                then [\<lparr>entry_name = take (len - 4) nm, entry_size = length bs\<rparr>]
                else [])
          else [])"

text \<open>
  The loop over \<^verbatim>\<open>dir.openNextFile()\<close>: one driver call to fetch the entry, one to close
  it; the loop ends at the first invalid entry (no child left, or a fault).
\<close>

fun scan_entries ::
  "medium \<Rightarrow> (string \<times> node) list \<Rightarrow> StorageEntry list \<Rightarrow> StorageEntry list \<times> medium" where
  "scan_entries m [] recordings = (recordings, tick m)"
| "scan_entries m (e # es) recordings =
     (if faulted m then (recordings, tick m)
      else scan_entries (tick (tick m)) es (recordings @ entry_recording (fst e) (snd e)))"

definition list_recordings :: "Storage \<Rightarrow> StorageEntry list \<times> Storage" where
  "list_recordings s =
     (if state s \<noteq> Idle then ([], s)
      else case SD_open (sd s) ''/recordings'' FILE_READ of
        (None, m1) \<Rightarrow> ([], set_error (s\<lparr>sd := m1\<rparr>) CanNotOpenFile)
      | (Some dir, m1) \<Rightarrow>
          (case scan_entries m1 (children m1 (f_path dir)) [] of
             (recordings, m2) \<Rightarrow> (recordings, s\<lparr>sd := File_close m2 (Some dir)\<rparr>)))"

definition build_recording_path :: "string \<Rightarrow> string" where
  "build_recording_path name = ''/recordings/'' @ name @ ''.rec''"

definition remove_recording :: "Storage \<Rightarrow> string \<Rightarrow> bool \<times> Storage" where
  "remove_recording s name =
     (if state s \<noteq> Idle then (False, s)
      else case SD_exists (sd s) (build_recording_path name) of (ex, m1) \<Rightarrow>
        if ex then
          (case SD_remove m1 (build_recording_path name) of (removed, m2) \<Rightarrow>
             if \<not> removed then (False, set_error (s\<lparr>sd := m2\<rparr>) CanNotRemoveFile)
             else (True, s\<lparr>sd := m2\<rparr>))
        else (False, s\<lparr>sd := m1\<rparr>))"

text \<open>
  \<^verbatim>\<open>snprintf(recording_name, 6, "%05d", i)\<close> for the \<open>i\<close> of the loop, \<open>0 \<le> i < 10000\<close>:
  five decimal digits, zero-padded.
\<close>

definition digit_char :: "nat \<Rightarrow> char" where
  "digit_char d = ''0123456789'' ! (d mod 10)"

definition format_05d :: "nat \<Rightarrow> string" where
  "format_05d i =
     [digit_char (i div 10000), digit_char (i div 1000), digit_char (i div 100),
      digit_char (i div 10), digit_char i]"

text \<open>
  The \<^verbatim>\<open>for\<close> loop of \<^verbatim>\<open>create_new_recording\<close>, from \<open>i\<close>: the first index whose file does
  not exist, or \<open>None\<close> when the loop runs out at 10000. Both buffers are rebuilt from
  \<open>i\<close> in every round, so the index stands for them.
\<close>

function find_free_index :: "medium \<Rightarrow> nat \<Rightarrow> nat option \<times> medium" where
  "find_free_index m i =
     (if i < 10000 then
        (if \<not> fst (SD_exists m (build_recording_path (format_05d i)))
         then (Some i, snd (SD_exists m (build_recording_path (format_05d i))))
         else find_free_index (snd (SD_exists m (build_recording_path (format_05d i)))) (Suc i))
      else (None, m))"
  by pat_completeness auto
termination
  by (relation "measure (\<lambda>(m, i). 10000 - i)") auto

declare find_free_index.simps [simp del]

definition create_new_recording :: "Storage \<Rightarrow> string option \<times> Storage" where
  "create_new_recording s =
     (if state s \<noteq> Idle then (None, s)
      else case find_free_index (sd s) (last_file_index s) of
        (None, m1) \<Rightarrow> (None, set_error (s\<lparr>sd := m1\<rparr>) TooManyFiles)
      | (Some i, m1) \<Rightarrow>
          (case SD_open m1 (build_recording_path (format_05d i)) FILE_WRITE of (fo, m2) \<Rightarrow>
             if fo = None then
               (None, set_error
                        (s\<lparr>current_recording_name := format_05d i, current_file := fo, sd := m2\<rparr>)
                        CanNotOpenFile)
             else (Some (format_05d i),
                   s\<lparr>current_recording_name := format_05d i, current_file := fo, sd := m2,
                     state := Recording\<rparr>)))"

text \<open>
  \<^verbatim>\<open>write_record(data, length)\<close>: the caller's array holds at least \<open>length\<close> floats (a
  shorter one is undefined behaviour in C++; the model then writes the floats there are).
\<close>

definition write_record :: "Storage \<Rightarrow> float32 list \<Rightarrow> byte \<Rightarrow> bool \<times> Storage" where
  "write_record s data len =
     (if state s \<noteq> Recording then (False, s)
      else if len = 0 then (False, s)
      else case File_write (sd s) (current_file s) [len] of (n1, m1) \<Rightarrow>
        if n1 = 0 then (False, set_error (s\<lparr>sd := m1\<rparr>) FileSystemError)
        else case File_write m1 (current_file s) (floats_bytes (take (unat len) data)) of
          (n2, m2) \<Rightarrow>
            if n2 = 0 then (False, set_error (s\<lparr>sd := m2\<rparr>) FileSystemError)
            else (True, s\<lparr>sd := m2\<rparr>))"

definition open_recording :: "Storage \<Rightarrow> string \<Rightarrow> bool \<times> Storage" where
  "open_recording s name =
     (if state s \<noteq> Idle then (False, s)
      else case SD_exists (sd s) (build_recording_path name) of (ex, m1) \<Rightarrow>
        if ex then
          (case SD_open m1 (build_recording_path name) FILE_READ of (fo, m2) \<Rightarrow>
             if fo \<noteq> None then (True, s\<lparr>current_file := fo, sd := m2, state := Reading\<rparr>)
             else (False, s\<lparr>current_file := fo, sd := m2\<rparr>))
        else (False, s\<lparr>sd := m1\<rparr>))"

text \<open>
  \<^verbatim>\<open>read_record(data, length)\<close> returns the \<^verbatim>\<open>int\<close> and the caller's array as it is left;
  \<open>cap\<close> is the parameter \<^verbatim>\<open>length\<close>, the capacity of the array in floats.
\<close>

definition read_record :: "Storage \<Rightarrow> float32 list \<Rightarrow> byte \<Rightarrow> int \<times> float32 list \<times> Storage" where
  "read_record s data cap =
     (if state s \<noteq> Reading then (0, data, s)
      else case File_peek (sd s) (current_file s) of (peeked, m1) \<Rightarrow>
        if peeked = -1 then (0, data, s\<lparr>sd := m1\<rparr>)
        else if peeked \<ge> uint cap then (- peeked, data, s\<lparr>sd := m1\<rparr>)
        else case File_read_byte m1 (current_file s) of (data_length, f2, m2) \<Rightarrow>
          if data_length = -1 then
            (0, data, set_error (s\<lparr>current_file := f2, sd := m2\<rparr>) FileSystemError)
          else case File_read m2 f2 (4 * nat data_length) of (got, f3, m3) \<Rightarrow>
            if length got = 0 then
              (0, store_bytes got data,
               set_error (s\<lparr>current_file := f3, sd := m3\<rparr>) FileSystemError)
            else (data_length, store_bytes got data, s\<lparr>current_file := f3, sd := m3\<rparr>))"

definition close_recording :: "Storage \<Rightarrow> bool \<times> Storage" where
  "close_recording s =
     (case state s of
        Recording \<Rightarrow>
          (True, s\<lparr>sd := File_close (sd s) (current_file s), current_file := None,
                  state := Idle, last_file_index := Suc (last_file_index s),
                  current_recording_name := []\<rparr>)
      | Reading \<Rightarrow>
          (True, s\<lparr>sd := File_close (sd s) (current_file s), current_file := None,
                  state := Idle\<rparr>)
      | _ \<Rightarrow> (False, s))"

subsection \<open>Calls, sessions and the example stores\<close>

text \<open>The public methods that change the store, as one type of calls.\<close>

datatype operation =
    OpInit
  | OpClearError
  | OpListRecordings
  | OpRemoveRecording string
  | OpCreateNewRecording
  | OpWriteRecord "float32 list" byte
  | OpOpenRecording string
  | OpReadRecord "float32 list" byte
  | OpCloseRecording

fun run :: "operation \<Rightarrow> Storage \<Rightarrow> Storage" where
  "run OpInit s = snd (init s)"
| "run OpClearError s = snd (clear_error s)"
| "run OpListRecordings s = snd (list_recordings s)"
| "run (OpRemoveRecording name) s = snd (remove_recording s name)"
| "run OpCreateNewRecording s = snd (create_new_recording s)"
| "run (OpWriteRecord data len) s = snd (write_record s data len)"
| "run (OpOpenRecording name) s = snd (open_recording s name)"
| "run (OpReadRecord data cap) s = snd (snd (read_record s data cap))"
| "run OpCloseRecording s = snd (close_recording s)"

fun run_all :: "operation list \<Rightarrow> Storage \<Rightarrow> Storage" where
  "run_all [] s = s"
| "run_all (c # cs) s = run_all cs (run c s)"

definition is_reinit :: "operation \<Rightarrow> bool" where
  "is_reinit c \<longleftrightarrow> c = OpInit \<or> c = OpClearError"

fun is_transfer :: "operation \<Rightarrow> bool" where
  "is_transfer (OpWriteRecord data len) = True"
| "is_transfer (OpReadRecord data cap) = True"
| "is_transfer c = False"

text \<open>The spec's invariant on the handle, and the half of it that reads left to right.\<close>

definition handle_iff_session :: "Storage \<Rightarrow> bool" where
  "handle_iff_session s \<longleftrightarrow> (current_file s \<noteq> None) = is_recording_open s"

definition session_has_handle :: "Storage \<Rightarrow> bool" where
  "session_has_handle s \<longleftrightarrow> (is_recording_open s \<longrightarrow> current_file s \<noteq> None)"

text \<open>No driver call fails from now on.\<close>

definition fault_free :: "medium \<Rightarrow> bool" where
  "fault_free m \<longleftrightarrow> (\<forall>n. clock m \<le> n \<longrightarrow> n \<notin> faults m)"

text \<open>
  One \<^verbatim>\<open>write_record\<close> call per record, each with the record as the array and its size
  as the length; the result says whether every call returned \<^verbatim>\<open>true\<close>.
\<close>

fun write_records :: "Storage \<Rightarrow> float32 list list \<Rightarrow> bool \<times> Storage" where
  "write_records s [] = (True, s)"
| "write_records s (r # rs) =
     (if fst (write_record s r (of_nat (length r)))
      then write_records (snd (write_record s r (of_nat (length r)))) rs
      else (False, snd (write_record s r (of_nat (length r)))))"

text \<open>
  One \<^verbatim>\<open>read_record\<close> call per capacity, into the same array: what each call returned
  and the floats it delivered, then the array and the store at the end.
\<close>

fun read_records ::
  "Storage \<Rightarrow> float32 list \<Rightarrow> byte list \<Rightarrow> (int \<times> float32 list) list \<times> float32 list \<times> Storage" where
  "read_records s data [] = ([], data, s)"
| "read_records s data (cap # caps) =
     (case read_record s data cap of (n, data1, s1) \<Rightarrow>
        case read_records s1 data1 caps of (rest, data2, s2) \<Rightarrow>
          ((n, take (nat n) data1) # rest, data2, s2))"

text \<open>The record encoding of the spec: the length byte, then the floats.\<close>

definition encode_record :: "float32 list \<Rightarrow> byte list" where
  "encode_record r = of_nat (length r) # floats_bytes r"

definition encode_records :: "float32 list list \<Rightarrow> byte list" where
  "encode_records rs = concat (map encode_record rs)"

text \<open>
  A store in the middle of a recording: the handle writes to \<open>p\<close>, which holds \<open>bs\<close>.
\<close>

definition recording_to :: "Storage \<Rightarrow> string \<Rightarrow> byte list \<Rightarrow> bool" where
  "recording_to s p bs \<longleftrightarrow>
     state s = Recording \<and>
     current_file s = Some \<lparr>f_path = p, f_mode = FILE_WRITE, f_pos = 0\<rparr> \<and>
     map_of (nodes (sd s)) p = Some (RegFile bs)"

text \<open>Example cards and stores.\<close>

definition fresh_card :: medium where
  "fresh_card = \<lparr>nodes = [(''/recordings'', Dir)], clock = 0, faults = {}\<rparr>"

definition fresh_store :: Storage where
  "fresh_store =
     \<lparr>state = Idle, error = NoError, current_file = None, current_recording_name = [],
      last_file_index = 0, sd = fresh_card\<rparr>"

definition failed_store :: Storage where
  "failed_store = fresh_store\<lparr>state := Error, error := CanNotInitialize\<rparr>"

text \<open>A store that is recording into \<^verbatim>\<open>00000\<close>, and the same on a card whose next call fails.\<close>

definition recording_store :: Storage where
  "recording_store =
     \<lparr>state = Recording, error = NoError,
      current_file = Some \<lparr>f_path = ''/recordings/00000.rec'', f_mode = FILE_WRITE, f_pos = 0\<rparr>,
      current_recording_name = ''00000'', last_file_index = 0,
      sd = \<lparr>nodes = [(''/recordings'', Dir), (''/recordings/00000.rec'', RegFile [])],
            clock = 2, faults = {}\<rparr>\<rparr>"

definition failing_recording_store :: Storage where
  "failing_recording_store = recording_store\<lparr>sd := (sd recording_store)\<lparr>faults := {2}\<rparr>\<rparr>"

text \<open>A store that has just opened \<^verbatim>\<open>00000\<close>, which holds the one-float record 1.0.\<close>

definition reading_store :: Storage where
  "reading_store =
     \<lparr>state = Reading, error = NoError,
      current_file = Some \<lparr>f_path = ''/recordings/00000.rec'', f_mode = FILE_READ, f_pos = 0\<rparr>,
      current_recording_name = [], last_file_index = 1,
      sd = \<lparr>nodes = [(''/recordings'', Dir), (''/recordings/00000.rec'', RegFile [1, 0, 0, 128, 63])],
            clock = 0, faults = {}\<rparr>\<rparr>"

text \<open>
  The counter stays in the range the loop of \<^verbatim>\<open>create_new_recording\<close> can reach: a
  recording can only be open below 10000.
\<close>

definition index_in_range :: "Storage \<Rightarrow> bool" where
  "index_in_range s \<longleftrightarrow>
     last_file_index s \<le> 10000 \<and> (state s = Recording \<longrightarrow> last_file_index s < 10000)"

text \<open>An idle store on a card that holds one recording and whose second call will fail.\<close>

definition flaky_card :: medium where
  "flaky_card =
     \<lparr>nodes = [(''/recordings'', Dir), (''/recordings/00000.rec'', RegFile [1, 0, 0, 128, 63])],
      clock = 0, faults = {1}\<rparr>"

definition flaky_store :: Storage where
  "flaky_store = fresh_store\<lparr>sd := flaky_card\<rparr>"

text \<open>\<open>n\<close> driver calls later.\<close>

definition ticks :: "nat \<Rightarrow> medium \<Rightarrow> medium" where
  "ticks n m = m\<lparr>clock := clock m + n\<rparr>"

text \<open>An idle store at index 9999 whose file \<^verbatim>\<open>09999.rec\<close> exists.\<close>

definition full_store :: Storage where
  "full_store =
     \<lparr>state = Idle, error = NoError, current_file = None, current_recording_name = [],
      last_file_index = 9999,
      sd = \<lparr>nodes = [(''/recordings'', Dir), (''/recordings/09999.rec'', RegFile [])],
            clock = 0, faults = {}\<rparr>\<rparr>"

text \<open>An idle store at index 3, with \<^verbatim>\<open>00001\<close>, \<^verbatim>\<open>00002\<close> and \<^verbatim>\<open>00005\<close> free.\<close>

definition gap_store :: Storage where
  "gap_store =
     \<lparr>state = Idle, error = NoError, current_file = None, current_recording_name = [],
      last_file_index = 3,
      sd = \<lparr>nodes = [(''/recordings'', Dir), (''/recordings/00000.rec'', RegFile []),
                     (''/recordings/00003.rec'', RegFile []), (''/recordings/00004.rec'', RegFile [])],
            clock = 0, faults = {}\<rparr>\<rparr>"

text \<open>A store that has just opened a file that starts with an empty record.\<close>

definition empty_record_store :: Storage where
  "empty_record_store =
     reading_store\<lparr>sd := (sd reading_store)\<lparr>nodes :=
       [(''/recordings'', Dir), (''/recordings/00000.rec'', RegFile [0, 1, 0, 0, 128, 63])]\<rparr>\<rparr>"

text \<open>The store after a whole recording: created, the records written, closed.\<close>

definition recorded :: "Storage \<Rightarrow> float32 list list \<Rightarrow> Storage" where
  "recorded s rs = snd (close_recording (snd (write_records (snd (create_new_recording s)) rs)))"

text \<open>Two records: 1.0, 2.0, 3.0 and -1.0.\<close>

definition two_records :: "float32 list list" where
  "two_records = [[0x3F800000, 0x40000000, 0x40400000], [0xBF800000]]"

text \<open>
  Reading a name back, in the spec's words "a 5-digit zero-padded decimal": the digits
  are the characters \<^verbatim>\<open>0\<close> to \<^verbatim>\<open>9\<close>, and a string of digits denotes the number whose
  decimal expansion it is, leading zeros included.
\<close>

definition is_decimal_digit :: "char \<Rightarrow> bool" where
  "is_decimal_digit c \<longleftrightarrow> c \<in> set ''0123456789''"

definition digit_value :: "char \<Rightarrow> nat" where
  "digit_value c = of_char c - 48"

definition decimal_value :: "string \<Rightarrow> nat" where
  "decimal_value str = foldl (\<lambda>a c. 10 * a + digit_value c) 0 str"

section \<open>Properties\<close>

subsection \<open>Calls in the wrong state\<close>

text \<open>
  C6. A state-checked method called in another state than the one it expects (Idle for
  \<^verbatim>\<open>list_recordings\<close>, \<^verbatim>\<open>remove_recording\<close>, \<^verbatim>\<open>create_new_recording\<close> and
  \<^verbatim>\<open>open_recording\<close>, Recording for \<^verbatim>\<open>write_record\<close>, Reading for \<^verbatim>\<open>read_record\<close>,
  Recording or Reading for \<^verbatim>\<open>close_recording\<close>) returns its failure value and returns
  the store as it was: state, error, index, name, handle and the card, clock included,
  so no driver call was made. The Error state is one such state for all of them.
\<close>

theorem wrong_state_call_changes_nothing:
  "(state s \<noteq> Idle \<longrightarrow>
      list_recordings s = ([], s) \<and> remove_recording s name = (False, s) \<and>
      create_new_recording s = (None, s) \<and> open_recording s name = (False, s)) \<and>
   (state s \<noteq> Recording \<longrightarrow> write_record s data len = (False, s)) \<and>
   (state s \<noteq> Reading \<longrightarrow> read_record s data cap = (0, data, s)) \<and>
   (state s \<noteq> Recording \<and> state s \<noteq> Reading \<longrightarrow> close_recording s = (False, s))"
  by (cases "state s")
    (simp_all add: list_recordings_def remove_recording_def create_new_recording_def
      open_recording_def write_record_def read_record_def close_recording_def)

theorem wrong_state_call_changes_nothing_witness:
  "state failed_store = Error \<and>
   list_recordings failed_store = ([], failed_store) \<and>
   remove_recording failed_store ''00000'' = (False, failed_store) \<and>
   create_new_recording failed_store = (None, failed_store) \<and>
   open_recording failed_store ''00000'' = (False, failed_store) \<and>
   write_record failed_store [1, 2, 3] 3 = (False, failed_store) \<and>
   read_record failed_store [1, 2, 3] 3 = (0, [1, 2, 3], failed_store) \<and>
   close_recording failed_store = (False, failed_store)"
proof -
  have st: "state failed_store = Error"
    by (simp add: failed_store_def)
  from wrong_state_call_changes_nothing
         [where s = failed_store and name = "''00000''" and data = "[1, 2, 3]" and len = 3 and cap = 3]
  show ?thesis
    by (simp add: st)
qed

subsection \<open>Writing nothing\<close>

text \<open>
  C9. \<^verbatim>\<open>write_record\<close> in Recording state with length 0 returns \<^verbatim>\<open>false\<close> at once and
  returns the store as it was: no driver call, state and error untouched, so the call
  can be repeated with a proper length.
\<close>

theorem write_record_zero_length:
  "state s = Recording \<Longrightarrow> write_record s data 0 = (False, s)"
  by (simp add: write_record_def)

theorem write_record_zero_length_witness:
  "state recording_store = Recording \<and> write_record recording_store [1, 2, 3] 0 = (False, recording_store)"
proof -
  have st: "state recording_store = Recording"
    by (simp add: recording_store_def)
  from write_record_zero_length [OF st, of "[1, 2, 3]"] st show ?thesis
    by simp
qed

subsection \<open>Opening a recording that cannot be opened\<close>

text \<open>
  C5. \<^verbatim>\<open>open_recording\<close> in Idle state, when \<^verbatim>\<open>SD.exists\<close> says that
  \<^verbatim>\<open>/recordings/<name>.rec\<close> is not there, or when it is there and \<^verbatim>\<open>SD.open\<close> returns an
  invalid file: the call returns \<^verbatim>\<open>false\<close>, the state is still Idle and the error is the
  one it was. Neither failure leads to the Error state.
\<close>

theorem open_recording_failure_stays_idle:
  assumes "state s = Idle"
    and "\<not> fst (SD_exists (sd s) (build_recording_path name)) \<or>
         fst (SD_open (snd (SD_exists (sd s) (build_recording_path name)))
                (build_recording_path name) FILE_READ) = None"
  shows "fst (open_recording s name) = False \<and>
         state (snd (open_recording s name)) = Idle \<and>
         error (snd (open_recording s name)) = error s"
  using assms by (auto simp: open_recording_def split: prod.splits)

theorem open_recording_failure_stays_idle_witness:
  "state fresh_store = Idle \<and>
   \<not> fst (SD_exists (sd fresh_store) (build_recording_path ''missing'')) \<and>
   fst (open_recording fresh_store ''missing'') = False \<and>
   state (snd (open_recording fresh_store ''missing'')) = Idle \<and>
   error (snd (open_recording fresh_store ''missing'')) = error fresh_store \<and>
   state flaky_store = Idle \<and>
   fst (SD_exists (sd flaky_store) (build_recording_path ''00000'')) \<and>
   fst (SD_open (snd (SD_exists (sd flaky_store) (build_recording_path ''00000'')))
          (build_recording_path ''00000'') FILE_READ) = None \<and>
   fst (open_recording flaky_store ''00000'') = False \<and>
   state (snd (open_recording flaky_store ''00000'')) = Idle \<and>
   error (snd (open_recording flaky_store ''00000'')) = error flaky_store"
proof -
  have idle: "state fresh_store = Idle"
    by (simp add: fresh_store_def)
  have missing: "\<not> fst (SD_exists (sd fresh_store) (build_recording_path ''missing''))"
    by (simp add: fresh_store_def fresh_card_def SD_exists_def build_recording_path_def)
  have idle2: "state flaky_store = Idle"
    by (simp add: flaky_store_def fresh_store_def)
  have there: "fst (SD_exists (sd flaky_store) (build_recording_path ''00000''))"
    by (simp add: flaky_store_def flaky_card_def SD_exists_def build_recording_path_def)
  have refused:
    "fst (SD_open (snd (SD_exists (sd flaky_store) (build_recording_path ''00000'')))
            (build_recording_path ''00000'') FILE_READ) = None"
    by (simp add: flaky_store_def flaky_card_def SD_exists_def SD_open_def faulted_def tick_def)
  from open_recording_failure_stays_idle [OF idle disjI1 [OF missing]]
    open_recording_failure_stays_idle [OF idle2 disjI2 [OF refused]]
    idle missing idle2 there refused
  show ?thesis by simp
qed

subsection \<open>Removing a recording\<close>

text \<open>
  C10. \<^verbatim>\<open>remove_recording\<close> in Idle state. When \<^verbatim>\<open>SD.exists\<close> says the file is not
  there, the call returns \<^verbatim>\<open>false\<close> and leaves state and error as they were. The store
  ends in the Error state exactly when the file is there and \<^verbatim>\<open>SD.remove\<close> fails, and
  then with error CanNotRemoveFile; otherwise it stays Idle with its error unchanged.
\<close>

theorem remove_recording_outcomes:
  assumes "state s = Idle"
  shows "(\<not> fst (SD_exists (sd s) (build_recording_path name)) \<longrightarrow>
            fst (remove_recording s name) = False \<and>
            state (snd (remove_recording s name)) = Idle \<and>
            error (snd (remove_recording s name)) = error s) \<and>
         (state (snd (remove_recording s name)) = Error \<longleftrightarrow>
            fst (SD_exists (sd s) (build_recording_path name)) \<and>
            \<not> fst (SD_remove (snd (SD_exists (sd s) (build_recording_path name)))
                    (build_recording_path name))) \<and>
         (state (snd (remove_recording s name)) = Error \<longrightarrow>
            error (snd (remove_recording s name)) = CanNotRemoveFile \<and>
            fst (remove_recording s name) = False) \<and>
         (state (snd (remove_recording s name)) \<noteq> Error \<longrightarrow>
            state (snd (remove_recording s name)) = Idle \<and>
            error (snd (remove_recording s name)) = error s)"
  using assms by (auto simp: remove_recording_def set_error_def split: prod.splits)

theorem remove_recording_outcomes_witness:
  "state fresh_store = Idle \<and>
   \<not> fst (SD_exists (sd fresh_store) (build_recording_path ''missing'')) \<and>
   fst (remove_recording fresh_store ''missing'') = False \<and>
   state (snd (remove_recording fresh_store ''missing'')) = Idle \<and>
   error (snd (remove_recording fresh_store ''missing'')) = error fresh_store \<and>
   state flaky_store = Idle \<and>
   fst (SD_exists (sd flaky_store) (build_recording_path ''00000'')) \<and>
   \<not> fst (SD_remove (snd (SD_exists (sd flaky_store) (build_recording_path ''00000'')))
           (build_recording_path ''00000'')) \<and>
   state (snd (remove_recording flaky_store ''00000'')) = Error \<and>
   error (snd (remove_recording flaky_store ''00000'')) = CanNotRemoveFile"
proof -
  have idle: "state fresh_store = Idle"
    by (simp add: fresh_store_def)
  have missing: "\<not> fst (SD_exists (sd fresh_store) (build_recording_path ''missing''))"
    by (simp add: fresh_store_def fresh_card_def SD_exists_def build_recording_path_def)
  have idle2: "state flaky_store = Idle"
    by (simp add: flaky_store_def fresh_store_def)
  have there: "fst (SD_exists (sd flaky_store) (build_recording_path ''00000''))"
    by (simp add: flaky_store_def flaky_card_def SD_exists_def build_recording_path_def)
  have stuck:
    "\<not> fst (SD_remove (snd (SD_exists (sd flaky_store) (build_recording_path ''00000'')))
             (build_recording_path ''00000''))"
    by (simp add: flaky_store_def flaky_card_def SD_exists_def SD_remove_def faulted_def tick_def
        build_recording_path_def)
  from remove_recording_outcomes [OF idle, of "''missing''"]
    remove_recording_outcomes [OF idle2, of "''00000''"]
    idle missing idle2 there stuck
  show ?thesis by simp
qed

subsection \<open>The driver calls keep what they do not touch\<close>

lemma tick_simps [simp]:
  "nodes (tick m) = nodes m"
  "faults (tick m) = faults m"
  "clock (tick m) = Suc (clock m)"
  by (simp_all add: tick_def)

lemma SD_exists_simps [simp]:
  "snd (SD_exists m p) = tick m"
  "fst (SD_exists (tick m) p) = fst (SD_exists m p)"
  "fst (SD_exists (ticks n m) p) = fst (SD_exists m p)"
  by (simp_all add: SD_exists_def tick_def ticks_def)

lemma ticks_simps [simp]:
  "ticks 0 m = m"
  "tick (ticks n m) = ticks (Suc n) m"
  "ticks n (tick m) = ticks (Suc n) m"
  "nodes (ticks n m) = nodes m"
  "faults (ticks n m) = faults m"
  "clock (ticks n m) = clock m + n"
  by (simp_all add: tick_def ticks_def)

subsection \<open>The search for a free name\<close>

lemma find_free_index_none:
  "\<forall>i. a \<le> i \<and> i < 10000 \<longrightarrow> fst (SD_exists m (build_recording_path (format_05d i))) \<Longrightarrow>
   find_free_index m a = (None, ticks (10000 - a) m)"
proof (induction "10000 - a" arbitrary: a m)
  case 0
  then show ?case by (simp add: find_free_index.simps)
next
  case (Suc d)
  then have a: "a < 10000" and d: "d = 10000 - Suc a" by simp_all
  have here: "fst (SD_exists m (build_recording_path (format_05d a)))"
    using Suc.prems a by simp
  have "find_free_index (tick m) (Suc a) = (None, ticks (10000 - Suc a) (tick m))"
    using Suc.hyps(1) [OF d, of "tick m"] Suc.prems a by simp
  moreover have "Suc (10000 - Suc a) = 10000 - a"
    using a by simp
  ultimately show ?case
    using a here by (subst find_free_index.simps) simp
qed

lemma find_free_index_first:
  "a \<le> k \<Longrightarrow> k < 10000 \<Longrightarrow>
   \<not> fst (SD_exists m (build_recording_path (format_05d k))) \<Longrightarrow>
   \<forall>j. a \<le> j \<and> j < k \<longrightarrow> fst (SD_exists m (build_recording_path (format_05d j))) \<Longrightarrow>
   find_free_index m a = (Some k, ticks (Suc (k - a)) m)"
proof (induction "k - a" arbitrary: a m)
  case 0
  then have "a = k" by simp
  with 0 show ?case by (subst find_free_index.simps) (simp add: tick_def ticks_def)
next
  case (Suc d)
  then have a: "a < k" and d: "d = k - Suc a" by simp_all
  have here: "fst (SD_exists m (build_recording_path (format_05d a)))"
    using Suc.prems a by simp
  have "find_free_index (tick m) (Suc a) = (Some k, ticks (Suc (k - Suc a)) (tick m))"
    using Suc.hyps(1) [OF d, of "tick m"] Suc.prems a by simp
  moreover have "Suc (k - Suc a) = k - a"
    using a by simp
  ultimately show ?case
    using a here Suc.prems(2) by (subst find_free_index.simps) simp
qed


text \<open>
  C2, as the code has it. \<^verbatim>\<open>create_new_recording\<close> in Idle state, when every index from
  \<^verbatim>\<open>_last_file_index\<close> to 9999 has its file: the call returns \<^verbatim>\<open>nullptr\<close> and sets the
  error to TooManyFiles through \<^verbatim>\<open>set_error\<close>, which also moves the state to Error; the
  handle, the name, the index and the files are left alone, and the card has answered
  one \<^verbatim>\<open>exists\<close> call per index.
\<close>

theorem create_new_recording_too_many_files:
  assumes "state s = Idle"
    and "\<forall>i. last_file_index s \<le> i \<and> i < 10000 \<longrightarrow>
             fst (SD_exists (sd s) (build_recording_path (format_05d i)))"
  shows "create_new_recording s =
           (None, s\<lparr>sd := ticks (10000 - last_file_index s) (sd s), state := Error, error := TooManyFiles\<rparr>)"
  using assms find_free_index_none [of "last_file_index s" "sd s"]
  by (simp add: create_new_recording_def set_error_def)

theorem create_new_recording_too_many_files_witness:
  "state full_store = Idle \<and> last_file_index full_store = 9999 \<and>
   fst (SD_exists (sd full_store) (build_recording_path (format_05d 9999))) \<and>
   create_new_recording full_store =
     (None, full_store\<lparr>sd := ticks (10000 - last_file_index full_store) (sd full_store),
                       state := Error, error := TooManyFiles\<rparr>)"
proof -
  have idle: "state full_store = Idle"
    by (simp add: full_store_def)
  have taken: "\<forall>i. last_file_index full_store \<le> i \<and> i < 10000 \<longrightarrow>
                 fst (SD_exists (sd full_store) (build_recording_path (format_05d i)))"
  proof (intro allI impI)
    fix i
    assume "last_file_index full_store \<le> i \<and> i < 10000"
    then have "i = 9999"
      by (simp add: full_store_def)
    then show "fst (SD_exists (sd full_store) (build_recording_path (format_05d i)))"
      by (simp add: full_store_def SD_exists_def build_recording_path_def format_05d_def
          digit_char_def)
  qed
  have cursor: "last_file_index full_store = 9999"
    by (simp add: full_store_def)
  from create_new_recording_too_many_files [OF idle taken] idle taken cursor show ?thesis
    by simp
qed

text \<open>
  The state does not stay Idle: on the store at index 9999 whose one remaining name is
  taken, the call ends in the Error state.
\<close>

theorem too_many_files_counterexample:
  "state full_store = Idle \<and> last_file_index full_store = 9999 \<and>
   fst (SD_exists (sd full_store) (build_recording_path (format_05d 9999))) \<and>
   fst (create_new_recording full_store) = None \<and>
   error (snd (create_new_recording full_store)) = TooManyFiles \<and>
   state (snd (create_new_recording full_store)) = Error"
  by (simp add: full_store_def create_new_recording_def find_free_index.simps SD_exists_def
      build_recording_path_def format_05d_def digit_char_def set_error_def tick_def)


lemma length_format_05d: "length (format_05d i) = 5"
  by (simp add: format_05d_def)

text \<open>
  \<^verbatim>\<open>"%05d"\<close> below 10000 writes the index: five decimal digits that denote it.
\<close>

lemma below_ten: "(j :: nat) < 10 \<Longrightarrow> j \<in> set [0, 1, 2, 3, 4, 5, 6, 7, 8, 9]"
  by simp arith

lemma digits_table:
  "\<forall>j \<in> set [0, 1, 2, 3, 4, 5, 6, 7, 8, 9 :: nat].
     digit_value (''0123456789'' ! j) = j \<and> is_decimal_digit (''0123456789'' ! j)"
  by (simp add: digit_value_def is_decimal_digit_def)

lemma digit_char_digit:
  "digit_value (digit_char d) = d mod 10 \<and> is_decimal_digit (digit_char d)"
proof -
  have "d mod 10 \<in> set [0, 1, 2, 3, 4, 5, 6, 7, 8, 9 :: nat]"
    by (rule below_ten) simp
  with digits_table show ?thesis
    unfolding digit_char_def by blast
qed

lemma five_digits:
  assumes "(i :: nat) < 10000"
  shows "10 * (10 * (10 * (10 * (i div 10000 mod 10) + i div 1000 mod 10) + i div 100 mod 10)
           + i div 10 mod 10) + i mod 10 = i"
proof -
  have d2: "i div 100 = i div 10 div 10" and d3: "i div 1000 = i div 10 div 10 div 10"
    by (simp_all add: div_mult2_eq)
  have top: "i div 10000 = 0"
    using assms by simp
  have small: "i div 10 div 10 div 10 < 10"
    using assms by (simp add: div_mult2_eq less_mult_imp_div_less)
  have "10 * (10 * (10 * (i div 10 div 10 div 10) + i div 10 div 10 mod 10) + i div 10 mod 10)
          + i mod 10 = i"
    by (simp only: mult_div_mod_eq)
  then show ?thesis
    using small by (simp add: d2 d3 top)
qed

lemma decimal_value_format_05d: "i < 10000 \<Longrightarrow> decimal_value (format_05d i) = i"
  using five_digits [of i]
  by (simp add: decimal_value_def format_05d_def digit_char_digit)

lemma digits_format_05d: "list_all is_decimal_digit (format_05d i)"
  by (simp add: format_05d_def digit_char_digit)

text \<open>So two indices below 10000 never share a name, nor a path.\<close>

lemma format_05d_inject:
  "i < 10000 \<Longrightarrow> j < 10000 \<Longrightarrow> format_05d i = format_05d j \<Longrightarrow> i = j"
  by (metis decimal_value_format_05d)

text \<open>
  C8. \<^verbatim>\<open>create_new_recording\<close> in Idle state, when \<open>k\<close> is the first index at or above
  \<^verbatim>\<open>_last_file_index\<close> and below 10000 whose file does not exist: the name of \<open>k\<close>
  becomes the current recording name, and that name is five characters long, all of
  them decimal digits, and denotes \<open>k\<close> (so it is \<open>k\<close> in decimal, zero-padded to five
  digits); the call succeeds exactly when
  its \<^verbatim>\<open>SD.open\<close> (made after the \<open>k - _last_file_index + 1\<close> \<^verbatim>\<open>exists\<close> calls of the
  scan) returns a valid file, and then it returns that name, the state is Recording and
  the handle writes to the new, empty file. Free indices below \<^verbatim>\<open>_last_file_index\<close> are
  never looked at.
\<close>

theorem create_new_recording_first_gap:
  assumes "state s = Idle"
    and "last_file_index s \<le> k" and "k < 10000"
    and "\<not> fst (SD_exists (sd s) (build_recording_path (format_05d k)))"
    and "\<forall>j. last_file_index s \<le> j \<and> j < k \<longrightarrow>
             fst (SD_exists (sd s) (build_recording_path (format_05d j)))"
  shows "current_recording_name (snd (create_new_recording s)) = format_05d k \<and>
         length (format_05d k) = 5 \<and> list_all is_decimal_digit (format_05d k) \<and>
         decimal_value (format_05d k) = k \<and>
         (fst (create_new_recording s) \<noteq> None \<longleftrightarrow>
            fst (SD_open (ticks (Suc (k - last_file_index s)) (sd s))
                   (build_recording_path (format_05d k)) FILE_WRITE) \<noteq> None) \<and>
         (fst (create_new_recording s) \<noteq> None \<longrightarrow>
            fst (create_new_recording s) = Some (format_05d k) \<and>
            state (snd (create_new_recording s)) = Recording \<and>
            current_file (snd (create_new_recording s)) =
              Some \<lparr>f_path = build_recording_path (format_05d k), f_mode = FILE_WRITE, f_pos = 0\<rparr> \<and>
            file_content (sd (snd (create_new_recording s))) (build_recording_path (format_05d k)) = [] \<and>
            fst (SD_exists (sd (snd (create_new_recording s))) (build_recording_path (format_05d k))))"
proof -
  have scan: "find_free_index (sd s) (last_file_index s) =
                (Some k, ticks (Suc (k - last_file_index s)) (sd s))"
    using assms(2-5) by (rule find_free_index_first)
  have free: "map_of (nodes (sd s)) (build_recording_path (format_05d k)) = None"
    using assms(4) by (simp add: SD_exists_def)
  have name: "length (format_05d k) = 5" "list_all is_decimal_digit (format_05d k)"
    "decimal_value (format_05d k) = k"
    using assms(3)
    by (simp_all only: length_format_05d digits_format_05d decimal_value_format_05d)
  have "current_recording_name (snd (create_new_recording s)) = format_05d k \<and>
         (fst (create_new_recording s) \<noteq> None \<longleftrightarrow>
            fst (SD_open (ticks (Suc (k - last_file_index s)) (sd s))
                   (build_recording_path (format_05d k)) FILE_WRITE) \<noteq> None) \<and>
         (fst (create_new_recording s) \<noteq> None \<longrightarrow>
            fst (create_new_recording s) = Some (format_05d k) \<and>
            state (snd (create_new_recording s)) = Recording \<and>
            current_file (snd (create_new_recording s)) =
              Some \<lparr>f_path = build_recording_path (format_05d k), f_mode = FILE_WRITE, f_pos = 0\<rparr> \<and>
            file_content (sd (snd (create_new_recording s))) (build_recording_path (format_05d k)) = [] \<and>
            fst (SD_exists (sd (snd (create_new_recording s))) (build_recording_path (format_05d k))))"
    using assms(1) free
    by (simp add: create_new_recording_def scan set_error_def SD_open_def SD_exists_def
        file_content_def update_conv' split: prod.splits)
  with name show ?thesis
    by blast
qed

theorem create_new_recording_first_gap_witness:
  "state gap_store = Idle \<and> last_file_index gap_store = 3 \<and>
   \<not> fst (SD_exists (sd gap_store) (build_recording_path ''00001'')) \<and>
   fst (SD_exists (sd gap_store) (build_recording_path ''00003'')) \<and>
   fst (SD_exists (sd gap_store) (build_recording_path ''00004'')) \<and>
   \<not> fst (SD_exists (sd gap_store) (build_recording_path ''00005'')) \<and>
   fst (create_new_recording gap_store) = Some ''00005'' \<and>
   state (snd (create_new_recording gap_store)) = Recording \<and>
   current_recording_name (snd (create_new_recording gap_store)) = ''00005'' \<and>
   length ''00005'' = 5 \<and> list_all is_decimal_digit ''00005'' \<and> decimal_value ''00005'' = 5"
proof -
  have f5: "format_05d 5 = ''00005''"
    by (simp add: format_05d_def digit_char_def)
  have idle: "state gap_store = Idle" and cursor: "last_file_index gap_store = 3"
    by (simp_all add: gap_store_def)
  have free: "\<not> fst (SD_exists (sd gap_store) (build_recording_path (format_05d 5)))"
    by (simp add: f5 gap_store_def SD_exists_def build_recording_path_def)
  have taken: "\<forall>j. last_file_index gap_store \<le> j \<and> j < 5 \<longrightarrow>
                 fst (SD_exists (sd gap_store) (build_recording_path (format_05d j)))"
  proof (intro allI impI)
    fix j
    assume "last_file_index gap_store \<le> j \<and> j < 5"
    then have "j = 3 \<or> j = 4"
      by (auto simp: cursor)
    then show "fst (SD_exists (sd gap_store) (build_recording_path (format_05d j)))"
      by (auto simp: gap_store_def SD_exists_def build_recording_path_def format_05d_def
          digit_char_def)
  qed
  have opened: "fst (SD_open (ticks (Suc (5 - last_file_index gap_store)) (sd gap_store))
                       (build_recording_path (format_05d 5)) FILE_WRITE) \<noteq> None"
    by (simp add: f5 gap_store_def SD_open_def faulted_def ticks_def build_recording_path_def)
  have rest: "\<not> fst (SD_exists (sd gap_store) (build_recording_path ''00001'')) \<and>
     fst (SD_exists (sd gap_store) (build_recording_path ''00003'')) \<and>
     fst (SD_exists (sd gap_store) (build_recording_path ''00004''))"
    by (simp add: gap_store_def SD_exists_def build_recording_path_def)
  from create_new_recording_first_gap [OF idle _ _ free taken] opened free rest idle cursor
  show ?thesis
    by (simp add: f5)
qed

subsection \<open>What each call does to the index, the state and the handle\<close>

lemma init_index [simp]: "last_file_index (snd (init s)) = last_file_index s"
  by (simp add: init_def set_error_def SD_begin_def SD_mkdir_def split: prod.splits)

lemma clear_error_index [simp]: "last_file_index (snd (clear_error s)) = last_file_index s"
  using init_index [of s] by (cases "init s") (simp add: clear_error_def)

lemma run_index_mono: "last_file_index s \<le> last_file_index (run c s)"
proof (cases c)
  case OpCloseRecording
  then show ?thesis by (simp add: close_recording_def split: StorageState.splits)
qed (simp_all add: list_recordings_def remove_recording_def
      create_new_recording_def write_record_def open_recording_def read_record_def
      set_error_def split: prod.splits option.splits)

lemma run_all_index_mono: "last_file_index s \<le> last_file_index (run_all cs s)"
proof (induction cs arbitrary: s)
  case Nil
  then show ?case by simp
next
  case (Cons c cs)
  have "last_file_index s \<le> last_file_index (run c s)"
    by (rule run_index_mono)
  also have "\<dots> \<le> last_file_index (run_all cs (run c s))"
    by (rule Cons.IH)
  finally show ?case by simp
qed

lemma file_content_tick [simp]: "file_content (tick m) p = file_content m p"
  by (simp add: file_content_def)

lemma find_free_index_range:
  "find_free_index m a = (Some i, m') \<Longrightarrow> a \<le> i \<and> i < 10000"
proof (induction m a rule: find_free_index.induct)
  case (1 m a)
  show ?case
  proof (cases "a < 10000")
    case False
    with "1.prems" show ?thesis by (simp add: find_free_index.simps)
  next
    case True
    show ?thesis
    proof (cases "fst (SD_exists m (build_recording_path (format_05d a)))")
      case False
      with True "1.prems" show ?thesis by (simp add: find_free_index.simps)
    next
      case there: True
      with True "1.prems" have "find_free_index (snd (SD_exists m (build_recording_path (format_05d a)))) (Suc a) = (Some i, m')"
        by (simp add: find_free_index.simps)
      from "1.IH" [OF True _ this] there show ?thesis by simp
    qed
  qed
qed

lemma init_state: "state (snd (init s)) = Idle \<or> state (snd (init s)) = Error"
  by (simp add: init_def set_error_def SD_begin_def SD_mkdir_def split: prod.splits)

lemma clear_error_state:
  "state (snd (clear_error s)) = Idle \<or> state (snd (clear_error s)) = Error"
  using init_state [of s] by (cases "init s") (auto simp: clear_error_def)

lemma init_file [simp]: "current_file (snd (init s)) = current_file s"
  by (simp add: init_def set_error_def SD_begin_def SD_mkdir_def split: prod.splits)

lemma clear_error_file [simp]: "current_file (snd (clear_error s)) = current_file s"
  using init_file [of s] by (cases "init s") (simp add: clear_error_def)

lemma read_record_handle:
  "(current_file (snd (snd (read_record s data cap))) = None) = (current_file s = None)"
  by (cases "current_file s")
    (simp_all add: read_record_def set_error_def File_peek_def File_read_byte_def File_read_def
      Let_def split: prod.splits)

lemma read_record_state:
  "state (snd (snd (read_record s data cap))) = state s \<or>
   state (snd (snd (read_record s data cap))) = Error"
  by (simp add: read_record_def set_error_def split: prod.splits)

lemma write_record_handle [simp]:
  "current_file (snd (write_record s data len)) = current_file s"
  by (simp add: write_record_def set_error_def split: prod.splits)

lemma write_record_state:
  "state (snd (write_record s data len)) = state s \<or>
   state (snd (write_record s data len)) = Error"
  by (simp add: write_record_def set_error_def split: prod.splits)

text \<open>
  \<^verbatim>\<open>_last_file_index++\<close> is therefore never applied above 9999, whatever integer type
  \<^verbatim>\<open>storage.h\<close> gives the counter: no wrap-around is lost by counting in \<open>nat\<close>.
\<close>

lemma run_index_in_range: "index_in_range s \<Longrightarrow> index_in_range (run c s)"
proof (cases c)
  case OpInit
  assume "index_in_range s"
  with OpInit init_state [of s] show ?thesis by (auto simp: index_in_range_def)
next
  case OpClearError
  assume "index_in_range s"
  with OpClearError clear_error_state [of s] show ?thesis by (auto simp: index_in_range_def)
next
  case OpCreateNewRecording
  assume "index_in_range s"
  with OpCreateNewRecording show ?thesis
    by (auto simp: index_in_range_def create_new_recording_def set_error_def
        split: prod.splits option.splits dest: find_free_index_range)
next
  case OpCloseRecording
  assume "index_in_range s"
  with OpCloseRecording show ?thesis
    by (auto simp: index_in_range_def close_recording_def split: StorageState.splits)
qed (auto simp: index_in_range_def list_recordings_def remove_recording_def
      write_record_def open_recording_def read_record_def
      set_error_def split: prod.splits option.splits)

lemma run_session_has_handle: "session_has_handle s \<Longrightarrow> session_has_handle (run c s)"
proof (cases c)
  case OpInit
  with init_state [of s] show ?thesis by (auto simp: session_has_handle_def is_recording_open_def)
next
  case OpClearError
  with clear_error_state [of s] show ?thesis by (auto simp: session_has_handle_def is_recording_open_def)
next
  case (OpReadRecord data cap)
  assume "session_has_handle s"
  with OpReadRecord read_record_handle [of s data cap] read_record_state [of s data cap]
  show ?thesis
    by (auto simp: session_has_handle_def is_recording_open_def)
next
  case (OpWriteRecord data len)
  assume "session_has_handle s"
  with OpWriteRecord write_record_state [of s data len]
  show ?thesis
    by (auto simp: session_has_handle_def is_recording_open_def)
qed (auto simp: session_has_handle_def is_recording_open_def list_recordings_def remove_recording_def
      open_recording_def create_new_recording_def close_recording_def
      set_error_def split: prod.splits option.splits StorageState.splits)

lemma run_handle_iff_session:
  assumes "handle_iff_session s"
    and "is_reinit c \<longrightarrow> \<not> is_recording_open s"
    and "is_transfer c \<longrightarrow> state (run c s) \<noteq> Error"
  shows "handle_iff_session (run c s)"
proof (cases c)
  case OpInit
  with assms init_state [of s] show ?thesis
    by (auto simp: handle_iff_session_def is_recording_open_def is_reinit_def)
next
  case OpClearError
  with assms clear_error_state [of s] show ?thesis
    by (auto simp: handle_iff_session_def is_recording_open_def is_reinit_def)
next
  case (OpReadRecord data cap)
  with assms read_record_handle [of s data cap] read_record_state [of s data cap] show ?thesis
    by (auto simp: handle_iff_session_def is_recording_open_def)
next
  case (OpWriteRecord data len)
  with assms write_record_state [of s data len] show ?thesis
    by (auto simp: handle_iff_session_def is_recording_open_def)
qed (use assms in \<open>auto simp: handle_iff_session_def is_recording_open_def list_recordings_def remove_recording_def
      open_recording_def create_new_recording_def close_recording_def
      set_error_def split: prod.splits option.splits StorageState.splits\<close>)

subsection \<open>Closing and the index\<close>

text \<open>
  C7. A \<^verbatim>\<open>close_recording\<close> call succeeds exactly from Recording or Reading. From
  Recording the index grows by exactly 1, the recording name is cleared and the state is
  Idle; from Reading the state is Idle and the index is as before. No call of any method,
  and so no sequence of calls, makes the index smaller.
\<close>

theorem close_recording_index:
  "(state s = Recording \<longrightarrow>
      fst (close_recording s) \<and>
      last_file_index (snd (close_recording s)) = last_file_index s + 1 \<and>
      current_recording_name (snd (close_recording s)) = [] \<and>
      state (snd (close_recording s)) = Idle) \<and>
   (state s = Reading \<longrightarrow>
      fst (close_recording s) \<and>
      state (snd (close_recording s)) = Idle \<and>
      last_file_index (snd (close_recording s)) = last_file_index s) \<and>
   (fst (close_recording s) \<longrightarrow> state s = Recording \<or> state s = Reading) \<and>
   last_file_index s \<le> last_file_index (run c s) \<and>
   last_file_index s \<le> last_file_index (run_all cs s)"
  by (simp add: run_index_mono run_all_index_mono close_recording_def split: StorageState.splits)

theorem close_recording_index_witness:
  "state recording_store = Recording \<and>
   fst (close_recording recording_store) \<and>
   last_file_index recording_store = 0 \<and>
   last_file_index (snd (close_recording recording_store)) = 1 \<and>
   current_recording_name (snd (close_recording recording_store)) = [] \<and>
   state (snd (close_recording recording_store)) = Idle \<and>
   state reading_store = Reading \<and>
   fst (close_recording reading_store) \<and>
   state (snd (close_recording reading_store)) = Idle \<and>
   last_file_index (snd (close_recording reading_store)) = last_file_index reading_store"
proof -
  have rec: "state recording_store = Recording" "last_file_index recording_store = 0"
    by (simp_all add: recording_store_def)
  have rd: "state reading_store = Reading"
    by (simp add: reading_store_def)
  from close_recording_index [where s = recording_store and c = OpCloseRecording and cs = "[]"]
    close_recording_index [where s = reading_store and c = OpCloseRecording and cs = "[]"]
    rec rd
  show ?thesis by simp
qed

subsection \<open>The handle and the state\<close>

text \<open>
  C3, as the code has it. Every call keeps: a store in Recording or Reading state has an
  open handle. The converse, and with it the spec's equivalence, is kept by every call
  except \<^verbatim>\<open>init\<close> and \<^verbatim>\<open>clear_error\<close> made during a recording or a reading, and except a
  \<^verbatim>\<open>write_record\<close> or \<^verbatim>\<open>read_record\<close> that ends in the Error state; nothing is said about
  the handle after those. \<^verbatim>\<open>close_recording\<close> from Recording or Reading succeeds, closes
  the handle and leaves the store Idle.
\<close>

theorem handle_follows_state:
  "(session_has_handle s \<longrightarrow> session_has_handle (run c s)) \<and>
   (handle_iff_session s \<and> (is_reinit c \<longrightarrow> \<not> is_recording_open s) \<and>
    (is_transfer c \<longrightarrow> state (run c s) \<noteq> Error) \<longrightarrow>
      handle_iff_session (run c s)) \<and>
   (is_recording_open s \<longrightarrow>
      fst (close_recording s) \<and> current_file (snd (close_recording s)) = None \<and>
      state (snd (close_recording s)) = Idle)"
proof (intro conjI impI)
  assume "session_has_handle s"
  then show "session_has_handle (run c s)"
    by (rule run_session_has_handle)
next
  assume "handle_iff_session s \<and> (is_reinit c \<longrightarrow> \<not> is_recording_open s) \<and>
          (is_transfer c \<longrightarrow> state (run c s) \<noteq> Error)"
  then show "handle_iff_session (run c s)"
    by (simp add: run_handle_iff_session)
next
  assume "is_recording_open s"
  then show "fst (close_recording s)" "current_file (snd (close_recording s)) = None"
    "state (snd (close_recording s)) = Idle"
    by (auto simp: is_recording_open_def close_recording_def)
qed

theorem handle_follows_state_witness:
  "handle_iff_session recording_store \<and>
   is_recording_open recording_store \<and> current_file recording_store \<noteq> None \<and>
   \<not> is_reinit OpCloseRecording \<and> \<not> is_transfer OpCloseRecording \<and>
   handle_iff_session (run OpCloseRecording recording_store) \<and>
   fst (close_recording recording_store) \<and>
   current_file (snd (close_recording recording_store)) = None \<and>
   state (snd (close_recording recording_store)) = Idle"
proof -
  have hyps: "session_has_handle recording_store" "handle_iff_session recording_store"
    "is_recording_open recording_store" "\<not> is_reinit OpCloseRecording"
    "\<not> is_transfer OpCloseRecording"
    by (simp_all add: session_has_handle_def handle_iff_session_def is_recording_open_def
        is_reinit_def recording_store_def)
  have "current_file recording_store \<noteq> None"
    by (simp add: recording_store_def)
  with handle_follows_state [where s = recording_store and c = OpCloseRecording] hyps
  show ?thesis by simp
qed

text \<open>
  The equivalence itself is lost in two ways. \<^verbatim>\<open>clear_error\<close> during a recording
  re-initialises the card, returns \<^verbatim>\<open>true\<close> and makes the store Idle with the handle
  still open; a \<^verbatim>\<open>write_record\<close> whose first write fails makes the store Error with the
  handle still open.
\<close>

theorem handle_follows_state_counterexample:
  "handle_iff_session recording_store \<and>
   fst (clear_error recording_store) \<and>
   state (snd (clear_error recording_store)) = Idle \<and>
   current_file (snd (clear_error recording_store)) \<noteq> None \<and>
   \<not> handle_iff_session (snd (clear_error recording_store)) \<and>
   handle_iff_session failing_recording_store \<and>
   \<not> fst (write_record failing_recording_store [1, 2, 3] 3) \<and>
   state (snd (write_record failing_recording_store [1, 2, 3] 3)) = Error \<and>
   current_file (snd (write_record failing_recording_store [1, 2, 3] 3)) \<noteq> None \<and>
   \<not> handle_iff_session (snd (write_record failing_recording_store [1, 2, 3] 3))"
  by (simp add: handle_iff_session_def is_recording_open_def recording_store_def
      failing_recording_store_def clear_error_def init_def SD_begin_def SD_exists_def
      SD_mkdir_def write_record_def File_write_def set_error_def faulted_def tick_def)

subsection \<open>The byte view of the floats\<close>

lemma bytes_float_bytes:
  "bytes_float (ucast w) (ucast (drop_bit 8 w)) (ucast (drop_bit 16 w)) (ucast (drop_bit 24 w)) =
     (w :: float32)"
  unfolding bytes_float_def
proof (rule bit_word_eqI)
  fix n :: nat
  assume "n < LENGTH(32)"
  then have n: "n < 32" by simp
  consider "n < 8" | "8 \<le> n" "n < 16" | "16 \<le> n" "n < 24" | "24 \<le> n"
    by linarith
  then show "bit (ucast (ucast w :: byte) OR push_bit 8 (ucast (ucast (drop_bit 8 w) :: byte)) OR
                  push_bit 16 (ucast (ucast (drop_bit 16 w) :: byte)) OR
                  push_bit 24 (ucast (ucast (drop_bit 24 w) :: byte)) :: float32) n = bit w n"
    using n by cases (auto simp: bit_simps)
qed

lemma bytes_floats_float_bytes: "bytes_floats (float_bytes w @ bs) = w # bytes_floats bs"
  by (simp add: float_bytes_def bytes_float_bytes)

lemma bytes_floats_floats_bytes_append: "bytes_floats (floats_bytes ws @ bs) = ws @ bytes_floats bs"
  by (induction ws) (simp_all add: floats_bytes_def bytes_floats_float_bytes)

lemma bytes_floats_floats_bytes: "bytes_floats (floats_bytes ws) = ws"
  using bytes_floats_floats_bytes_append [of ws "[]"] by simp

lemma length_floats_bytes: "length (floats_bytes ws) = 4 * length ws"
  by (induction ws) (simp_all add: floats_bytes_def float_bytes_def)

lemma drop_floats_bytes: "drop (4 * n) (floats_bytes data) = floats_bytes (drop n data)"
proof (induction data arbitrary: n)
  case Nil
  then show ?case by (simp add: floats_bytes_def)
next
  case (Cons d ds)
  show ?case
  proof (cases n)
    case 0
    then show ?thesis by simp
  next
    case (Suc k)
    have "drop (4 * Suc k) (floats_bytes (d # ds)) = drop (4 * k) (drop 4 (floats_bytes (d # ds)))"
      by (simp add: add.commute)
    also have "drop 4 (floats_bytes (d # ds)) = floats_bytes ds"
      by (simp add: floats_bytes_def float_bytes_def)
    finally have "drop (4 * Suc k) (floats_bytes (d # ds)) = drop (4 * k) (floats_bytes ds)" .
    with Cons.IH [of k] Suc show ?thesis by simp
  qed
qed

lemma bytes_floats_split:
  "length bs = 4 * n \<Longrightarrow> bytes_floats (bs @ cs) = bytes_floats bs @ bytes_floats cs"
proof (induction n arbitrary: bs)
  case 0
  then show ?case by simp
next
  case (Suc n)
  then obtain a b c d bs' where bs: "bs = a # b # c # d # bs'" and len: "length bs' = 4 * n"
    by (auto simp: length_Suc_conv mult_Suc_right numeral_eq_Suc)
  from Suc.IH [OF len] show ?case by (simp add: bs)
qed

lemma length_bytes_floats: "length bs = 4 * n \<Longrightarrow> length (bytes_floats bs) = n"
proof (induction n arbitrary: bs)
  case 0
  then show ?case by simp
next
  case (Suc n)
  then obtain a b c d bs' where bs: "bs = a # b # c # d # bs'" and len: "length bs' = 4 * n"
    by (auto simp: length_Suc_conv mult_Suc_right numeral_eq_Suc)
  from Suc.IH [OF len] show ?case by (simp add: bs)
qed

lemma store_bytes_whole:
  "length bs = 4 * n \<Longrightarrow> store_bytes bs data = bytes_floats bs @ drop n data"
  by (simp add: store_bytes_def drop_floats_bytes bytes_floats_split bytes_floats_floats_bytes)

subsection \<open>Reading one record\<close>

lemma fault_free_ticks: "fault_free m \<Longrightarrow> fault_free (ticks n m)"
  by (simp add: fault_free_def)

lemma fault_free_tick: "fault_free m \<Longrightarrow> fault_free (tick m)"
  by (simp add: fault_free_def)

lemma fault_free_now: "fault_free m \<Longrightarrow> \<not> faulted m"
  by (simp add: fault_free_def faulted_def)

lemma pending_byte:
  assumes "drop n xs = y # ys"
  shows "n < length xs" and "xs ! n = y" and "drop (Suc n) xs = ys"
proof -
  show n: "n < length xs"
    using assms by (cases "n < length xs") simp_all
  from assms show "xs ! n = y"
    by (metis n nth_via_drop)
  from assms show "drop (Suc n) xs = ys"
    by (metis drop_Suc tl_drop list.sel(3))
qed

lemma read_record_too_small:
  assumes "state s = Reading" and "current_file s = Some f"
    and "drop (f_pos f) (file_content (sd s) (f_path f)) = L # pending"
    and "\<not> faulted (sd s)" and "cap \<le> L"
  shows "read_record s data cap = (- uint L, data, s\<lparr>sd := tick (sd s)\<rparr>)"
proof -
  note pend = pending_byte [OF assms(3)]
  have "uint cap \<le> uint L"
    using assms(5) by (simp add: word_le_def)
  moreover have "uint L \<noteq> - 1"
    using uint_ge_0 [of L] by linarith
  ultimately show ?thesis
    using assms(1,2,4) pend(1,2) by (simp add: read_record_def File_peek_def)
qed

lemma read_record_next:
  assumes "state s = Reading" and "current_file s = Some f"
    and "drop (f_pos f) (file_content (sd s) (f_path f)) = L # payload @ rest"
    and "length payload = 4 * unat L" and "L \<noteq> 0" and "L < cap"
    and "fault_free (sd s)"
  shows "read_record s data cap =
           (uint L, bytes_floats payload @ drop (unat L) data,
            s\<lparr>current_file := Some (f\<lparr>f_pos := f_pos f + 1 + 4 * unat L\<rparr>),
              sd := ticks 3 (sd s)\<rparr>)"
proof -
  note pend = pending_byte [OF assms(3)]
  have ok: "\<not> faulted (sd s)" "\<not> faulted (tick (sd s))" "\<not> faulted (tick (tick (sd s)))"
    using assms(7) by (simp_all add: fault_free_now fault_free_tick)
  have lt: "\<not> uint cap \<le> uint L"
    using assms(6) by (simp add: word_less_def)
  have ne: "uint L \<noteq> - 1"
    using uint_ge_0 [of L] by linarith
  have pos: "0 < unat L"
    using assms(5) by (simp add: unat_gt_0)
  have peek: "File_peek (sd s) (Some f) = (uint L, tick (sd s))"
    using ok(1) pend(1,2) by (simp add: File_peek_def)
  have byte: "File_read_byte (tick (sd s)) (Some f) =
                (uint L, Some (f\<lparr>f_pos := Suc (f_pos f)\<rparr>), tick (tick (sd s)))"
    using ok(2) pend(1,2) by (simp add: File_read_byte_def)
  have got: "File_read (tick (tick (sd s))) (Some (f\<lparr>f_pos := Suc (f_pos f)\<rparr>)) (4 * unat L) =
               (payload, Some (f\<lparr>f_pos := f_pos f + 1 + 4 * unat L\<rparr>), tick (tick (tick (sd s))))"
    using ok(3) pend(3) assms(4)
    by (simp add: File_read_def Let_def)
  have three: "tick (tick (tick (sd s))) = ticks 3 (sd s)"
    by (simp add: tick_def ticks_def)
  have stored: "store_bytes payload data = bytes_floats payload @ drop (unat L) data"
    using assms(4) by (rule store_bytes_whole)
  have nonempty: "payload \<noteq> []"
    using assms(4) pos by auto
  show ?thesis
    using assms(1,2) lt ne nonempty
    by (simp add: read_record_def peek byte got stored three)
qed


text \<open>
  C4, as the code has it. \<^verbatim>\<open>read_record\<close> in Reading state on a card that does not fail,
  when the next pending record has length \<open>L\<close> and the capacity is at most \<open>L\<close>: the call
  returns \<open>-L\<close>, the array and the handle (and so the position) are as before, only a
  \<^verbatim>\<open>peek\<close> was made. A retry with a capacity strictly above \<open>L\<close>, for \<open>L \<ge> 1\<close>, reads the
  same record: it returns \<open>L\<close>, stores the \<open>L\<close> floats of the record at the start of the
  array and leaves the position behind the record.
\<close>

theorem read_record_buffer_too_small:
  assumes "state s = Reading" and "current_file s = Some f"
    and "drop (f_pos f) (file_content (sd s) (f_path f)) = L # payload @ rest"
    and "length payload = 4 * unat L"
    and "fault_free (sd s)"
    and "cap \<le> L"
  shows "read_record s data cap = (- uint L, data, s\<lparr>sd := tick (sd s)\<rparr>) \<and>
         current_file (snd (snd (read_record s data cap))) = Some f \<and>
         (L \<noteq> 0 \<and> L < cap' \<and> unat cap' \<le> length data \<longrightarrow>
            read_record (snd (snd (read_record s data cap))) data cap' =
              (uint L, bytes_floats payload @ drop (unat L) data,
               s\<lparr>current_file := Some (f\<lparr>f_pos := f_pos f + 1 + 4 * unat L\<rparr>),
                 sd := ticks 4 (sd s)\<rparr>) \<and>
            length (bytes_floats payload) = unat L)"
proof -
  have first: "read_record s data cap = (- uint L, data, s\<lparr>sd := tick (sd s)\<rparr>)"
    using assms(1,2,3) fault_free_now [OF assms(5)] assms(6) by (rule read_record_too_small)
  have "read_record (s\<lparr>sd := tick (sd s)\<rparr>) data cap' =
          (uint L, bytes_floats payload @ drop (unat L) data,
           s\<lparr>current_file := Some (f\<lparr>f_pos := f_pos f + 1 + 4 * unat L\<rparr>),
             sd := ticks 4 (sd s)\<rparr>)"
    if "L \<noteq> 0" and "L < cap'"
    using read_record_next [of "s\<lparr>sd := tick (sd s)\<rparr>" f L payload rest cap' data]
      assms(1-4) fault_free_tick [OF assms(5)] that
    by simp
  with first assms(2,4) show ?thesis
    by (simp add: length_bytes_floats)
qed

theorem read_record_buffer_too_small_witness:
  "state reading_store = Reading \<and>
   faults (sd reading_store) = {} \<and>
   read_record reading_store [0, 0] 1 = (- 1, [0, 0], reading_store\<lparr>sd := tick (sd reading_store)\<rparr>) \<and>
   fst (read_record (snd (snd (read_record reading_store [0, 0] 1))) [0, 0] 2) = 1 \<and>
   fst (snd (read_record (snd (snd (read_record reading_store [0, 0] 1))) [0, 0] 2)) = [0x3F800000, 0]"
proof -
  have st: "state reading_store = Reading"
    and h: "current_file reading_store =
              Some \<lparr>f_path = ''/recordings/00000.rec'', f_mode = FILE_READ, f_pos = 0\<rparr>"
    by (simp_all add: reading_store_def)
  have pending:
    "drop (f_pos \<lparr>f_path = ''/recordings/00000.rec'', f_mode = FILE_READ, f_pos = 0\<rparr>)
       (file_content (sd reading_store)
          (f_path \<lparr>f_path = ''/recordings/00000.rec'', f_mode = FILE_READ, f_pos = 0\<rparr>)) =
     1 # [0, 0, 128, 63] @ []"
    by (simp add: reading_store_def file_content_def)
  have len: "length [0 :: byte, 0, 128, 63] = 4 * unat (1 :: byte)"
    by simp
  have ff: "fault_free (sd reading_store)"
    by (simp add: reading_store_def fault_free_def)
  have floats: "bytes_float 0 0 128 63 = 0x3F800000"
    by (simp add: bytes_float_def)
  have small: "(1 :: byte) \<le> 1"
    and big: "(1 :: byte) \<noteq> 0 \<and> (1 :: byte) < 2 \<and> unat (2 :: byte) \<le> length [0 :: float32, 0]"
    by simp_all
  note all = read_record_buffer_too_small [OF st h pending len ff small, of "[0, 0]" 2]
  note first = all [THEN conjunct1]
  note retry = all [THEN conjunct2, THEN conjunct2, THEN mp, OF big, THEN conjunct1]
  from first have "read_record reading_store [0, 0] 1 =
      (- 1, [0, 0], reading_store\<lparr>sd := tick (sd reading_store)\<rparr>)"
    by simp
  moreover from retry
  have "fst (read_record (snd (snd (read_record reading_store [0, 0] 1))) [0, 0] 2) = 1"
    and "fst (snd (read_record (snd (snd (read_record reading_store [0, 0] 1))) [0, 0] 2)) =
           [0x3F800000, 0]"
    by (simp_all add: floats)
  moreover have "faults (sd reading_store) = {}"
    by (simp add: reading_store_def)
  ultimately show ?thesis
    using st by simp
qed

text \<open>
  A retry with capacity equal to \<open>L\<close> is refused again: the test is
  \<^verbatim>\<open>data_length >= length\<close>. And the retry for an empty record, \<open>L = 0\<close>, consumes the
  length byte, reads zero bytes and takes that for a failure: it ends in the Error state.
\<close>

theorem read_record_buffer_too_small_counterexample:
  "state reading_store = Reading \<and>
   file_content (sd reading_store) ''/recordings/00000.rec'' = [1, 0, 0, 128, 63] \<and>
   fst (read_record reading_store [0] 1) = - 1 \<and>
   fst (read_record (snd (snd (read_record reading_store [0] 1))) [0] 1) = - 1 \<and>
   state empty_record_store = Reading \<and>
   file_content (sd empty_record_store) ''/recordings/00000.rec'' = [0, 1, 0, 0, 128, 63] \<and>
   fst (read_record empty_record_store [0] 0) = 0 \<and>
   fst (read_record (snd (snd (read_record empty_record_store [0] 0))) [0] 1) = 0 \<and>
   state (snd (snd (read_record (snd (snd (read_record empty_record_store [0] 0))) [0] 1))) = Error \<and>
   error (snd (snd (read_record (snd (snd (read_record empty_record_store [0] 0))) [0] 1))) = FileSystemError"
  by (simp add: reading_store_def empty_record_store_def read_record_def File_peek_def
      File_read_byte_def File_read_def file_content_def faulted_def tick_def set_error_def)

subsection \<open>Writing a recording and reading it back\<close>

lemma create_new_recording_success:
  assumes "state s = Idle" and "fst (create_new_recording s) = Some name"
  shows "recording_to (snd (create_new_recording s)) (build_recording_path name) []"
    and "error (snd (create_new_recording s)) = error s"
  using assms
  by (auto simp: create_new_recording_def recording_to_def set_error_def SD_open_def update_conv'
      split: prod.splits option.splits if_splits)

lemma write_record_appends:
  assumes "recording_to s p bs" and "fst (write_record s r len)"
  shows "recording_to (snd (write_record s r len)) p (bs @ len # floats_bytes (take (unat len) r))"
    and "error (snd (write_record s r len)) = error s"
  using assms
  by (auto simp: write_record_def recording_to_def set_error_def File_write_def update_conv'
      split: prod.splits option.splits if_splits)

lemma write_records_appends:
  assumes "recording_to s p bs" and "\<forall>r\<in>set rs. 1 \<le> length r \<and> length r \<le> 255"
    and "fst (write_records s rs)"
  shows "recording_to (snd (write_records s rs)) p (bs @ encode_records rs) \<and>
         error (snd (write_records s rs)) = error s"
  using assms
proof (induction rs arbitrary: s bs)
  case Nil
  then show ?case by (simp add: encode_records_def)
next
  case (Cons r rs)
  let ?len = "of_nat (length r) :: byte"
  let ?s1 = "snd (write_record s r ?len)"
  from Cons.prems(3) have w: "fst (write_record s r ?len)" and ws: "fst (write_records ?s1 rs)"
    by (auto split: if_splits)
  have "length r < 2 ^ LENGTH(8)"
    using Cons.prems(2) by simp
  then have len: "unat ?len = length r"
    by (simp add: of_nat_inverse)
  from write_record_appends [OF Cons.prems(1) w] len
  have step: "recording_to ?s1 p (bs @ encode_record r)" and err: "error ?s1 = error s"
    by (simp_all add: encode_record_def)
  from Cons.IH [OF step _ ws] Cons.prems(2) w err show ?case
    by (simp add: encode_records_def)
qed

lemma close_recording_keeps_file:
  assumes "recording_to s p bs"
  shows "state (snd (close_recording s)) = Idle"
    and "nodes (sd (snd (close_recording s))) = nodes (sd s)"
    and "error (snd (close_recording s)) = error s"
  using assms by (simp_all add: recording_to_def close_recording_def File_close_def)

lemma open_recording_success:
  assumes "state s = Idle" and "fst (open_recording s name)"
  shows "state (snd (open_recording s name)) = Reading"
    and "current_file (snd (open_recording s name)) =
           Some \<lparr>f_path = build_recording_path name, f_mode = FILE_READ, f_pos = 0\<rparr>"
    and "nodes (sd (snd (open_recording s name))) = nodes (sd s)"
    and "error (snd (open_recording s name)) = error s"
  using assms
  by (auto simp: open_recording_def SD_open_def SD_exists_def split: prod.splits if_splits)

lemma read_record_at_end:
  assumes "state s = Reading" and "current_file s = Some f"
    and "drop (f_pos f) (file_content (sd s) (f_path f)) = []"
  shows "read_record s data cap = (0, data, s\<lparr>sd := tick (sd s)\<rparr>)"
  using assms by (simp add: read_record_def File_peek_def)


lemma file_content_ticks [simp]: "file_content (ticks n m) p = file_content m p"
  by (simp add: file_content_def)

lemma length_encode_record: "length (encode_record r) = 1 + 4 * length r"
  by (simp add: encode_record_def length_floats_bytes)

lemma read_records_all:
  assumes "state s = Reading" and "current_file s = Some f"
    and "drop (f_pos f) (file_content (sd s) (f_path f)) = encode_records rs @ rest"
    and "fault_free (sd s)"
    and "list_all2 (\<lambda>r cap. 1 \<le> length r \<and> length r < unat cap \<and> unat cap \<le> length data) rs caps"
  shows "\<exists>data' s'.
           read_records s data caps = (map (\<lambda>r. (int (length r), r)) rs, data', s') \<and>
           state s' = Reading \<and> error s' = error s \<and>
           current_file s' = Some (f\<lparr>f_pos := f_pos f + length (encode_records rs)\<rparr>) \<and>
           nodes (sd s') = nodes (sd s) \<and> fault_free (sd s') \<and> length data' = length data"
  using assms
proof (induction rs arbitrary: s f data caps)
  case Nil
  then show ?case by (simp add: encode_records_def)
next
  case (Cons r rs)
  from Cons.prems(5) obtain c cs where caps: "caps = c # cs"
    and r: "1 \<le> length r" "length r < unat c" "unat c \<le> length data"
    and rest: "list_all2 (\<lambda>r cap. 1 \<le> length r \<and> length r < unat cap \<and> unat cap \<le> length data) rs cs"
    by (auto simp: list_all2_Cons1)
  let ?L = "of_nat (length r) :: byte"
  let ?f1 = "f\<lparr>f_pos := f_pos f + 1 + 4 * unat ?L\<rparr>"
  let ?s1 = "s\<lparr>current_file := Some ?f1, sd := ticks 3 (sd s)\<rparr>"
  let ?data1 = "r @ drop (length r) data"
  have "unat c < 2 ^ LENGTH(8)"
    by (rule unsigned_less)
  with r(2) have "length r < 2 ^ LENGTH(8)"
    by linarith
  then have L: "unat ?L = length r"
    by (simp add: of_nat_inverse)
  have L0: "?L \<noteq> 0"
    using L r(1) by (metis not_one_le_zero unat_0)
  have Lc: "?L < c"
    using L r(2) by (simp add: word_less_nat_alt)
  have pending: "drop (f_pos f) (file_content (sd s) (f_path f)) =
                   ?L # floats_bytes r @ (encode_records rs @ rest)"
    using Cons.prems(3) by (simp add: encode_records_def encode_record_def)
  have len: "length (floats_bytes r) = 4 * unat ?L"
    by (simp add: L length_floats_bytes)
  have Lu: "uint ?L = int (length r)"
    using L by (metis uint_nat)
  have one: "read_record s data c = (int (length r), ?data1, ?s1)"
    using read_record_next [OF Cons.prems(1,2) pending len L0 Lc Cons.prems(4), of data]
    by (simp add: bytes_floats_floats_bytes L Lu)
  have len1: "length ?data1 = length data"
    using r by simp
  have next_pending: "drop (f_pos ?f1) (file_content (sd ?s1) (f_path ?f1)) = encode_records rs @ rest"
  proof -
    have "drop (f_pos f + 1 + 4 * length r) (file_content (sd s) (f_path f)) =
            drop (1 + 4 * length r) (drop (f_pos f) (file_content (sd s) (f_path f)))"
      by (simp add: add.commute)
    also have "\<dots> = encode_records rs @ rest"
      by (simp add: pending length_floats_bytes)
    finally show ?thesis by (simp add: L)
  qed
  have rest1: "list_all2 (\<lambda>r cap. 1 \<le> length r \<and> length r < unat cap \<and> unat cap \<le> length ?data1) rs cs"
    using rest len1 by simp
  from Cons.IH [of ?s1 ?f1 ?data1 cs, OF _ _ next_pending _ rest1] Cons.prems(1,4)
  obtain data' s' where
    all: "read_records ?s1 ?data1 cs = (map (\<lambda>r. (int (length r), r)) rs, data', s')"
      "state s' = Reading" "error s' = error s"
      "current_file s' = Some (?f1\<lparr>f_pos := f_pos ?f1 + length (encode_records rs)\<rparr>)"
      "nodes (sd s') = nodes (sd s)" "fault_free (sd s')" "length data' = length ?data1"
    by (auto simp: fault_free_ticks)
  have "read_records s data caps = (map (\<lambda>r. (int (length r), r)) (r # rs), data', s')"
    using all(1) by (simp add: caps one)
  moreover have "current_file s' = Some (f\<lparr>f_pos := f_pos f + length (encode_records (r # rs))\<rparr>)"
    using all(4) by (simp add: L encode_records_def length_encode_record)
  ultimately show ?case
    using all(2,3,5,6,7) len1 by simp
qed

text \<open>
  C1. A recording is created from the Idle state, the records \<open>rs\<close>, each of 1 to 255
  floats, are written by one successful \<^verbatim>\<open>write_record\<close> call each, the recording is closed
  and opened again under the name that was returned. On a card that does not fail while
  it is read, one \<^verbatim>\<open>read_record\<close> call per record, each with a capacity above the
  record's length (and an array of that capacity), returns the length of that record and
  delivers exactly its floats, in the order written; the call after the last record
  returns 0, with the store still Reading and its error as it was at the start.
\<close>

theorem record_round_trip:
  assumes idle: "state s0 = Idle"
    and created: "fst (create_new_recording s0) = Some name"
    and lens: "\<forall>r\<in>set rs. 1 \<le> length r \<and> length r \<le> 255"
    and written: "fst (write_records (snd (create_new_recording s0)) rs)"
    and opened: "fst (open_recording (recorded s0 rs) name)"
    and healthy: "fault_free (sd (snd (open_recording (recorded s0 rs) name)))"
    and caps: "list_all2 (\<lambda>r cap. length r < unat cap \<and> unat cap \<le> length data) rs caps"
  shows "fst (read_records (snd (open_recording (recorded s0 rs) name)) data caps) =
           map (\<lambda>r. (int (length r), r)) rs \<and>
         fst (read_record
               (snd (snd (read_records (snd (open_recording (recorded s0 rs) name)) data caps)))
               (fst (snd (read_records (snd (open_recording (recorded s0 rs) name)) data caps)))
               cap) = 0 \<and>
         state (snd (snd (read_record
               (snd (snd (read_records (snd (open_recording (recorded s0 rs) name)) data caps)))
               (fst (snd (read_records (snd (open_recording (recorded s0 rs) name)) data caps)))
               cap))) = Reading \<and>
         error (snd (snd (read_record
               (snd (snd (read_records (snd (open_recording (recorded s0 rs) name)) data caps)))
               (fst (snd (read_records (snd (open_recording (recorded s0 rs) name)) data caps)))
               cap))) = error s0"
proof -
  let ?p = "build_recording_path name"
  let ?s1 = "snd (create_new_recording s0)"
  let ?s2 = "snd (write_records ?s1 rs)"
  let ?s4 = "snd (open_recording (recorded s0 rs) name)"
  let ?f = "\<lparr>f_path = ?p, f_mode = FILE_READ, f_pos = 0\<rparr>"
  note c = create_new_recording_success [OF idle created]
  from write_records_appends [OF c(1) lens written] c(2)
  have w: "recording_to ?s2 ?p (encode_records rs)" and we: "error ?s2 = error s0"
    by simp_all
  note cl = close_recording_keeps_file [OF w]
  have rec: "recorded s0 rs = snd (close_recording ?s2)"
    by (simp add: recorded_def)
  have idle3: "state (recorded s0 rs) = Idle"
    by (simp add: rec cl(1))
  note op = open_recording_success [OF idle3 opened]
  have "nodes (sd ?s4) = nodes (sd ?s2)"
    using op(3) cl(2) by (simp add: rec)
  then have content: "file_content (sd ?s4) ?p = encode_records rs"
    using w by (simp add: file_content_def recording_to_def)
  have pending: "drop (f_pos ?f) (file_content (sd ?s4) (f_path ?f)) = encode_records rs @ []"
    by (simp add: content)
  have caps': "list_all2 (\<lambda>r cap. 1 \<le> length r \<and> length r < unat cap \<and> unat cap \<le> length data) rs caps"
    using caps lens by (auto simp: list_all2_conv_all_nth)
  from read_records_all [OF op(1) op(2) pending healthy caps']
  obtain data' s' where
    all: "read_records ?s4 data caps = (map (\<lambda>r. (int (length r), r)) rs, data', s')"
      "state s' = Reading" "error s' = error ?s4"
      "current_file s' = Some (?f\<lparr>f_pos := f_pos ?f + length (encode_records rs)\<rparr>)"
      "nodes (sd s') = nodes (sd ?s4)"
    by blast
  have "file_content (sd s') ?p = encode_records rs"
    using content all(5) by (simp add: file_content_def)
  then have "drop (f_pos (?f\<lparr>f_pos := f_pos ?f + length (encode_records rs)\<rparr>))
               (file_content (sd s') (f_path (?f\<lparr>f_pos := f_pos ?f + length (encode_records rs)\<rparr>))) = []"
    by simp
  from read_record_at_end [OF all(2) all(4) this, of data' cap]
  have last: "read_record s' data' cap = (0, data', s'\<lparr>sd := tick (sd s')\<rparr>)" .
  have "error ?s4 = error s0"
    using op(4) cl(3) we by (simp add: rec)
  then have err: "error s' = error s0"
    by (simp add: all(3))
  show ?thesis
    by (simp add: all(1) last all(2) err)
qed


text \<open>The definitions that a run on an example store unfolds.\<close>

lemmas run_defs = create_new_recording_def find_free_index.simps SD_exists_def SD_open_def
  build_recording_path_def format_05d_def digit_char_def faulted_def tick_def
  write_record_def File_write_def floats_bytes_def float_bytes_def set_error_def
  close_recording_def File_close_def open_recording_def recorded_def

theorem record_round_trip_witness:
  "state fresh_store = Idle \<and>
   fst (create_new_recording fresh_store) = Some ''00000'' \<and>
   fst (write_records (snd (create_new_recording fresh_store)) two_records) \<and>
   fst (open_recording (recorded fresh_store two_records) ''00000'') \<and>
   faults (sd (snd (open_recording (recorded fresh_store two_records) ''00000''))) = {} \<and>
   fst (read_records (snd (open_recording (recorded fresh_store two_records) ''00000''))
          [0, 0, 0, 0, 0, 0, 0, 0, 0] [9, 2]) =
     [(3, [0x3F800000, 0x40000000, 0x40400000]), (1, [0xBF800000])] \<and>
   fst (read_record
         (snd (snd (read_records (snd (open_recording (recorded fresh_store two_records) ''00000''))
                      [0, 0, 0, 0, 0, 0, 0, 0, 0] [9, 2])))
         (fst (snd (read_records (snd (open_recording (recorded fresh_store two_records) ''00000''))
                      [0, 0, 0, 0, 0, 0, 0, 0, 0] [9, 2])))
         9) = 0"
proof -
  have idle: "state fresh_store = Idle"
    by (simp add: fresh_store_def)
  have created: "create_new_recording fresh_store = (Some ''00000'', recording_store)"
    by (simp add: fresh_store_def fresh_card_def recording_store_def run_defs)
  have written: "fst (write_records recording_store two_records)"
    by (simp add: two_records_def recording_store_def run_defs)
  have reopened:
    "open_recording (snd (close_recording (snd (write_records recording_store two_records))))
       ''00000'' =
     (True,
      \<lparr>state = Reading, error = NoError,
       current_file =
         Some \<lparr>f_path = ''/recordings/00000.rec'', f_mode = FILE_READ, f_pos = 0\<rparr>,
       current_recording_name = [], last_file_index = 1,
       sd = \<lparr>nodes = [(''/recordings'', Dir),
                      (''/recordings/00000.rec'',
                       RegFile [3, 0, 0, 128, 63, 0, 0, 0, 64, 0, 0, 64, 64, 1, 0, 0, 128, 191])],
             clock = 9, faults = {}\<rparr>\<rparr>)"
    by (simp add: two_records_def recording_store_def run_defs)
  have rec: "recorded fresh_store two_records =
               snd (close_recording (snd (write_records recording_store two_records)))"
    by (simp add: recorded_def created)
  have opened: "fst (open_recording (recorded fresh_store two_records) ''00000'')"
    by (simp add: rec reopened)
  have healthy: "fault_free (sd (snd (open_recording (recorded fresh_store two_records) ''00000'')))"
    by (simp add: rec reopened fault_free_def)
  have lens: "\<forall>r\<in>set two_records. 1 \<le> length r \<and> length r \<le> 255"
    by (simp add: two_records_def)
  have caps: "list_all2 (\<lambda>r cap. length r < unat cap \<and> unat cap \<le> length [0 :: float32, 0, 0, 0, 0, 0, 0, 0, 0])
                two_records [9 :: byte, 2]"
    by (simp add: two_records_def)
  have c1: "fst (create_new_recording fresh_store) = Some ''00000''"
    and w1: "fst (write_records (snd (create_new_recording fresh_store)) two_records)"
    by (simp_all add: created written)
  note rt = record_round_trip [OF idle c1 lens w1 opened healthy caps, of 9]
  have "map (\<lambda>r. (int (length r), r)) two_records =
          [(3, [0x3F800000, 0x40000000, 0x40400000]), (1, [0xBF800000])]"
    by (simp add: two_records_def)
  moreover have "faults (sd (snd (open_recording (recorded fresh_store two_records) ''00000''))) = {}"
    by (simp add: rec reopened)
  ultimately show ?thesis
    using rt idle c1 w1 opened by simp
qed

text \<open>
  A capacity is a \<^verbatim>\<open>uint8_t\<close>, so none is above 255: a record of 255 floats can be
  written, and every attempt to read it is answered with -255.
\<close>

lemma record_of_255_floats_is_never_read:
  assumes "state s = Reading" and "current_file s = Some f"
    and "drop (f_pos f) (file_content (sd s) (f_path f)) = 255 # pending"
    and "\<not> faulted (sd s)"
  shows "read_record s data cap = (- 255, data, s\<lparr>sd := tick (sd s)\<rparr>)"
proof -
  have "unat cap < 2 ^ LENGTH(8)"
    by (rule unsigned_less)
  then have "cap \<le> 255"
    by (simp add: word_le_nat_alt)
  from read_record_too_small [OF assms this] show ?thesis
    by simp
qed

end
